theory Spec2Isabelle
  imports Complex_Main "HOL-Library.AList" "HOL-Library.Sublist"
begin

section \<open>Python values, dictionaries and errors\<close>

text \<open>
  The values a caller can put into a record or a filter operand. A Python float is
  carried as the rational number its decimal notation denotes (the parameter binding
  layer sends that notation to the engine); no floating-point arithmetic is modelled.
\<close>

datatype pyval =
    PNone
  | PBool bool
  | PInt int
  | PFloat rat
  | PStr string
  | PList "pyval list"
  | PDict "(string \<times> pyval) list"

datatype pytype = T_NoneType | T_bool | T_int | T_float | T_str | T_list | T_dict

text \<open>\<^verbatim>\<open>type(value)\<close>: the exact class, so \<open>True\<close> is a \<open>bool\<close>, not an \<open>int\<close>.\<close>

fun type_of :: "pyval \<Rightarrow> pytype" where
  "type_of PNone = T_NoneType"
| "type_of (PBool b) = T_bool"
| "type_of (PInt i) = T_int"
| "type_of (PFloat r) = T_float"
| "type_of (PStr s) = T_str"
| "type_of (PList xs) = T_list"
| "type_of (PDict kvs) = T_dict"

text \<open>
  Every raise of the source and of the libraries it calls is a value of this type.
  The last group are errors reported by the relational engine.
\<close>

datatype error =
    KeyError
  | NameError
  | TypeError
  | NoResultsToFetch
  | CannotAdapt
  | SyntaxError
  | UndefinedTable
  | UndefinedColumn
  | UndefinedObject
  | DuplicateTable
  | DatatypeMismatch

text \<open>
  A Python dict with string keys is an association list with distinct keys, in
  insertion order. A dict comprehension stores its items one after the other: a key
  met again keeps its place and takes the later value.
\<close>

type_synonym 'v pydict = "(string \<times> 'v) list"

definition dict_of :: "(string \<times> 'v) list \<Rightarrow> 'v pydict" where
  "dict_of kvs = foldl (\<lambda>d (k, v). AList.update k v d) [] kvs"

definition getitem :: "('k \<times> 'v) list \<Rightarrow> 'k \<Rightarrow> error + 'v" where
  "getitem d k = (case map_of d k of None \<Rightarrow> Inl KeyError | Some v \<Rightarrow> Inr v)"

text \<open>\<^verbatim>\<open>sep.join(xs)\<close>\<close>

fun join :: "string \<Rightarrow> string list \<Rightarrow> string" where
  "join sep [] = []"
| "join sep [x] = x"
| "join sep (x # y # ys) = x @ sep @ join sep (y # ys)"

text \<open>
  The names bound at module level in \<^verbatim>\<open>helenus.py\<close>: the three imports
  (\<^verbatim>\<open>import psycopg2\<close>, \<^verbatim>\<open>from psycopg2.extras import RealDictCursor\<close>,
  \<^verbatim>\<open>import logging\<close>) and the three classes. Reading any other global name that is
  not a builtin raises \<open>NameError\<close>.
\<close>

definition module_globals :: "string list" where
  "module_globals =
     [''psycopg2'', ''RealDictCursor'', ''logging'', ''Helenus'', ''Table'', ''Field'']"

text \<open>
  A value handed to the parameter binding layer: either the Python value itself or
  the JSON text of a value (what \<^verbatim>\<open>json.dumps\<close> returns).
\<close>

datatype param = Plain pyval | JsonText pyval

text \<open>
  The expression \<^verbatim>\<open>json.dumps(v)\<close> as the module evaluates it: the global
  \<^verbatim>\<open>json\<close> is looked up first.
\<close>

definition json_dumps :: "pyval \<Rightarrow> error + param" where
  "json_dumps v = (if ''json'' \<in> set module_globals then Inr (JsonText v) else Inl NameError)"

section \<open>Filter expressions (class Field)\<close>

text \<open>
  A \<open>Field\<close> object has the attributes \<open>name\<close>, \<open>value\<close> and \<open>op\<close>. Each comparison
  method sets \<open>value\<close> and \<open>op\<close> and returns the object; here it returns the updated
  record. (Two references to one object, changed through either, are not modelled.)
\<close>

record Field =
  fname :: string
  fvalue :: pyval
  fop :: "string option"

definition Field_init :: "string \<Rightarrow> Field" where
  "Field_init n = \<lparr>fname = n, fvalue = PNone, fop = None\<rparr>"

definition equals :: "Field \<Rightarrow> pyval \<Rightarrow> Field" where
  "equals f v = f\<lparr>fvalue := v, fop := Some ''=''\<rparr>"

text \<open>The operator text of \<open>exists\<close> is \<^verbatim>\<open>is not null and '' =\<close>.\<close>

definition exists_op :: string where
  "exists_op = ''is not null and '' @ [CHR 0x27, CHR 0x27] @ '' =''"

definition exists :: "Field \<Rightarrow> Field" where
  "exists f = f\<lparr>fvalue := PStr [], fop := Some exists_op\<rparr>"


definition less_than :: "Field \<Rightarrow> pyval \<Rightarrow> Field" where
  "less_than f v = f\<lparr>fvalue := v, fop := Some ''<''\<rparr>"

definition greater_or_equal :: "Field \<Rightarrow> pyval \<Rightarrow> Field" where
  "greater_or_equal f v = f\<lparr>fvalue := v, fop := Some ''>=''\<rparr>"

definition less_or_equal :: "Field \<Rightarrow> pyval \<Rightarrow> Field" where
  "less_or_equal f v = f\<lparr>fvalue := v, fop := Some ''<=''\<rparr>"

text \<open>How \<^verbatim>\<open>str.format\<close> prints the operator: a string as it is, \<open>None\<close> as its name.\<close>

definition format_op :: "string option \<Rightarrow> string" where
  "format_op p = (case p of None \<Rightarrow> ''None'' | Some s \<Rightarrow> s)"

section \<open>Statements and their text\<close>

text \<open>
  The seven statement templates of the source. A statement keeps the pieces the source
  formats into the template; \<open>stmt_text\<close> is the string the source passes to
  \<^verbatim>\<open>cursor.execute\<close>. The WHERE clause of a SELECT is absent, the list of
  (field name, operator text) pairs of the filter expressions, or a raw string.
\<close>

datatype where_clause =
    NoWhere
  | WhereFields "(string \<times> string) list"
  | WhereRaw string

datatype stmt =
    SelectExists string
  | SelectColumns string
  | CreateTable string
  | AlterAddColumn string string string
  | InsertInto string "string list"
  | SelectFrom string where_clause
  | TruncateTable string

definition nl :: string where
  "nl = [CHR 0x0A]"

definition indent :: "nat \<Rightarrow> string" where
  "indent n = replicate n CHR '' ''"

definition quoted :: "string \<Rightarrow> string" where
  "quoted s = [CHR 0x27] @ s @ [CHR 0x27]"

text \<open>\<^verbatim>\<open>"{} {} %({})s".format(f.name, f.op, f.name)\<close>\<close>

definition conjunct_text :: "string \<times> string \<Rightarrow> string" where
  "conjunct_text c = fst c @ '' '' @ snd c @ '' %('' @ fst c @ '')s''"

text \<open>\<^verbatim>\<open>"%({})s".format(field)\<close>\<close>

definition placeholder :: "string \<Rightarrow> string" where
  "placeholder k = ''%('' @ k @ '')s''"

fun where_text :: "where_clause \<Rightarrow> string" where
  "where_text NoWhere = []"
| "where_text (WhereFields cs) = '' WHERE '' @ join '' AND '' (map conjunct_text cs)"
| "where_text (WhereRaw s) = '' WHERE '' @ s"

fun stmt_text :: "stmt \<Rightarrow> string" where
  "stmt_text (SelectExists t) =
     nl @ indent 12 @ ''SELECT EXISTS('' @
     nl @ indent 16 @ ''SELECT 1'' @
     nl @ indent 16 @ ''FROM information_schema.tables'' @
     nl @ indent 16 @ ''WHERE table_schema='' @ quoted ''public'' @
       '' AND table_name='' @ quoted t @
     nl @ indent 12 @ '')''"
| "stmt_text (SelectColumns t) =
     nl @ indent 12 @ ''SELECT column_name, data_type'' @
     nl @ indent 12 @ ''FROM information_schema.columns'' @
     nl @ indent 12 @ ''WHERE table_name='' @ quoted t @
     nl @ indent 8"
| "stmt_text (CreateTable t) = ''CREATE TABLE '' @ t @ '' ()''"
| "stmt_text (AlterAddColumn t c ty) =
     nl @ indent 12 @ ''ALTER TABLE '' @ t @
     nl @ indent 12 @ ''ADD COLUMN IF NOT EXISTS '' @ c @ '' '' @ ty @
     nl @ indent 8"
| "stmt_text (InsertInto t ks) =
     ''INSERT INTO '' @ t @ '' '' @ ''('' @ join '','' ks @ '')'' @ '' VALUES '' @
     ''('' @ join '','' (map placeholder ks) @ '')''"
| "stmt_text (SelectFrom t w) = ''SELECT * FROM '' @ t @ where_text w"
| "stmt_text (TruncateTable t) = ''TRUNCATE TABLE '' @ t"

section \<open>The relational engine\<close>

text \<open>
  The engine is an external collaborator of the program (PostgreSQL behind psycopg2);
  the program only sends it statements, and every method of the program below takes the
  engine as a parameter: any function from the engine's state and a request to an outcome
  and a new state. This section fixes one such function, \<open>engine_exec\<close>, a reading of the
  seven statement templates for statements whose identifiers are plain lower-case names:
  \<^item> a relation has an ordered list of columns, each with the type name the catalog
    reports, and a list of rows; a row holds the cells that were written, and every
    other cell of it is NULL;
  \<^item> identifiers are taken as they are written in the statement, and no statement
    removes a column;
  \<^item> a SELECT only reads; how the engine reads a raw predicate string is a component
    of the engine, left open;
  \<^item> a literal whose kind does not correspond to the column's type is reported as a
    mismatch (the engine's own conversions between kinds and the range of bigint are
    not modelled);
  \<^item> only the session's own view is modelled (no concurrent session, no rollback, no
    aborted transaction).
  It serves to evaluate the program on examples; a property stated for every engine does
  not depend on it.
\<close>

datatype sqlval = SNull | SInt int | SNum rat | SText string | SJson pyval

type_synonym row = "(string \<times> sqlval) list"

record relation =
  cols :: "(string \<times> string) list"
  rows :: "row list"

record engine =
  relations :: "(string \<times> relation) list"
  raw_predicate :: "string \<Rightarrow> (row \<Rightarrow> bool) option"

text \<open>What a cursor holds after a statement, by the kind of statement.\<close>

datatype result =
    Flag bool
  | Catalog "(string \<times> string) list"
  | Rows "row list"
  | NoResult

text \<open>The type names accepted in ADD COLUMN, with the name the catalog reports for each.\<close>

definition data_types :: "(string \<times> string) list" where
  "data_types =
     [(''varchar'', ''character varying''), (''bigint'', ''bigint''),
      (''numeric'', ''numeric''), (''json'', ''json'')]"

text \<open>
  Parameter binding (psycopg2): each Python value becomes a literal of the statement.
  A dict has no adapter; a list becomes an array of its adapted elements.
\<close>

datatype literal =
    LNull
  | LBool bool
  | LInt int
  | LNum rat
  | LText string
  | LJson pyval
  | LArray "pyval list"

fun adaptable :: "pyval \<Rightarrow> bool" where
  "adaptable (PDict kvs) = False"
| "adaptable (PList xs) = list_all adaptable xs"
| "adaptable v = True"

fun adapt :: "param \<Rightarrow> error + literal" where
  "adapt (JsonText v) = Inr (LJson v)"
| "adapt (Plain PNone) = Inr LNull"
| "adapt (Plain (PBool b)) = Inr (LBool b)"
| "adapt (Plain (PInt i)) = Inr (LInt i)"
| "adapt (Plain (PFloat q)) = Inr (LNum q)"
| "adapt (Plain (PStr s)) = Inr (LText s)"
| "adapt (Plain (PList xs)) = (if list_all adaptable xs then Inr (LArray xs) else Inl CannotAdapt)"
| "adapt (Plain (PDict kvs)) = Inl CannotAdapt"

definition bind_err :: "error + 'a \<Rightarrow> ('a \<Rightarrow> error + 'b) \<Rightarrow> error + 'b" where
  "bind_err m f = (case m of Inl e \<Rightarrow> Inl e | Inr a \<Rightarrow> f a)"

text \<open>Apply a fallible function to each element in order; the first error ends it.\<close>

fun map_err :: "('a \<Rightarrow> error + 'b) \<Rightarrow> 'a list \<Rightarrow> error + 'b list" where
  "map_err f [] = Inr []"
| "map_err f (x # xs) =
     (case f x of Inl e \<Rightarrow> Inl e
      | Inr y \<Rightarrow> (case map_err f xs of Inl e \<Rightarrow> Inl e | Inr ys \<Rightarrow> Inr (y # ys)))"

text \<open>The placeholder \<^verbatim>\<open>%(k)s\<close>: the value under \<open>k\<close> in the parameters, adapted.\<close>

definition bind_placeholder :: "param pydict option \<Rightarrow> string \<Rightarrow> error + literal" where
  "bind_placeholder ps k =
     (case ps of None \<Rightarrow> Inl SyntaxError
      | Some d \<Rightarrow> bind_err (getitem d k) adapt)"

datatype cmpop = Eq | Gt | Lt | Ge | Le

datatype sqlop = Cmp cmpop | NotNullAndEmptyEq

definition parse_op :: "string \<Rightarrow> sqlop option" where
  "parse_op s =
     (if s = ''='' then Some (Cmp Eq)
      else if s = ''>'' then Some (Cmp Gt)
      else if s = ''<'' then Some (Cmp Lt)
      else if s = ''>='' then Some (Cmp Ge)
      else if s = ''<='' then Some (Cmp Le)
      else if s = exists_op then Some NotNullAndEmptyEq
      else None)"

fun compare_rat :: "cmpop \<Rightarrow> rat \<Rightarrow> rat \<Rightarrow> bool" where
  "compare_rat Eq a b = (a = b)"
| "compare_rat Gt a b = (a > b)"
| "compare_rat Lt a b = (a < b)"
| "compare_rat Ge a b = (a \<ge> b)"
| "compare_rat Le a b = (a \<le> b)"

text \<open>Text is ordered character by character, by character code.\<close>

fun text_less :: "string \<Rightarrow> string \<Rightarrow> bool" where
  "text_less [] [] = False"
| "text_less [] (y # ys) = True"
| "text_less (x # xs) [] = False"
| "text_less (x # xs) (y # ys) =
     ((of_char x :: nat) < of_char y \<or> (x = y \<and> text_less xs ys))"

fun compare_text :: "cmpop \<Rightarrow> string \<Rightarrow> string \<Rightarrow> bool" where
  "compare_text Eq a b = (a = b)"
| "compare_text Gt a b = text_less b a"
| "compare_text Lt a b = text_less a b"
| "compare_text Ge a b = (\<not> text_less a b)"
| "compare_text Le a b = (\<not> text_less b a)"

fun num_of :: "sqlval \<Rightarrow> rat option" where
  "num_of (SInt i) = Some (of_int i)"
| "num_of (SNum q) = Some q"
| "num_of v = None"

fun literal_num :: "literal \<Rightarrow> rat option" where
  "literal_num (LInt i) = Some (of_int i)"
| "literal_num (LNum q) = Some q"
| "literal_num l = None"

text \<open>The cell of a row under a column: NULL unless it was written.\<close>

definition cell :: "row \<Rightarrow> string \<Rightarrow> sqlval" where
  "cell r c = (case map_of r c of None \<Rightarrow> SNull | Some v \<Rightarrow> v)"

text \<open>
  \<^verbatim>\<open>col <cmp> literal\<close> on a column of catalog type \<open>ty\<close>: a comparison with NULL on either
  side is not true; json has no comparison operators.
\<close>

definition compare_col :: "string \<Rightarrow> cmpop \<Rightarrow> literal \<Rightarrow> error + (sqlval \<Rightarrow> bool)" where
  "compare_col ty c l =
     (if ty = ''json'' then Inl DatatypeMismatch
      else if l = LNull then Inr (\<lambda>v. False)
      else if ty = ''bigint'' \<or> ty = ''numeric'' then
        (case literal_num l of
           None \<Rightarrow> Inl DatatypeMismatch
         | Some q \<Rightarrow> Inr (\<lambda>v. case num_of v of None \<Rightarrow> False | Some x \<Rightarrow> compare_rat c x q))
      else if ty = ''character varying'' then
        (case l of
           LText s \<Rightarrow> Inr (\<lambda>v. case v of SText t \<Rightarrow> compare_text c t s | _ \<Rightarrow> False)
         | _ \<Rightarrow> Inl DatatypeMismatch)
      else Inl DatatypeMismatch)"

text \<open>
  \<^verbatim>\<open>'' = literal\<close>: the empty text against the bound literal. A JSON text is never empty.
\<close>

fun empty_text_eq :: "literal \<Rightarrow> error + bool" where
  "empty_text_eq (LText s) = Inr ([] = s)"
| "empty_text_eq (LJson v) = Inr False"
| "empty_text_eq LNull = Inr False"
| "empty_text_eq l = Inl DatatypeMismatch"

text \<open>
  One conjunct \<^verbatim>\<open>col op literal\<close> as a predicate on rows. With the operator text of
  \<open>exists\<close> the conjunct reads \<^verbatim>\<open>col is not null and '' = literal\<close>.
\<close>

definition conjunct_pred ::
  "(string \<times> string) list \<Rightarrow> string \<Rightarrow> sqlop \<Rightarrow> literal \<Rightarrow> error + (row \<Rightarrow> bool)" where
  "conjunct_pred cs c p l =
     (case map_of cs c of
        None \<Rightarrow> Inl UndefinedColumn
      | Some ty \<Rightarrow>
          (case p of
             NotNullAndEmptyEq \<Rightarrow>
               bind_err (empty_text_eq l) (\<lambda>b. Inr (\<lambda>r. cell r c \<noteq> SNull \<and> b))
           | Cmp k \<Rightarrow> bind_err (compare_col ty k l) (\<lambda>f. Inr (\<lambda>r. f (cell r c)))))"

text \<open>A row as SELECT * returns it: one cell for each column of the relation.\<close>

definition present :: "(string \<times> string) list \<Rightarrow> row \<Rightarrow> row" where
  "present cs r = map (\<lambda>c. (fst c, cell r (fst c))) cs"

definition parse_ops :: "(string \<times> string) list \<Rightarrow> error + sqlop list" where
  "parse_ops cs =
     map_err (\<lambda>c. case parse_op (snd c) of None \<Rightarrow> Inl SyntaxError | Some p \<Rightarrow> Inr p) cs"

text \<open>
  SELECT: the parameters are bound first (on the client), then the statement is parsed,
  then the relation and the columns are resolved.
\<close>

definition engine_select ::
  "engine \<Rightarrow> string \<Rightarrow> where_clause \<Rightarrow> param pydict option \<Rightarrow> error + row list" where
  "engine_select e t w ps =
     (case w of
        NoWhere \<Rightarrow>
          (case map_of (relations e) t of
             None \<Rightarrow> Inl UndefinedTable
           | Some r \<Rightarrow> Inr (map (present (cols r)) (rows r)))
      | WhereRaw s \<Rightarrow>
          (case raw_predicate e s of
             None \<Rightarrow> Inl SyntaxError
           | Some p \<Rightarrow>
               (case map_of (relations e) t of
                  None \<Rightarrow> Inl UndefinedTable
                | Some r \<Rightarrow> Inr (filter p (map (present (cols r)) (rows r)))))
      | WhereFields cs \<Rightarrow>
          bind_err (map_err (\<lambda>c. bind_placeholder ps (fst c)) cs) (\<lambda>ls.
          bind_err (parse_ops cs) (\<lambda>os.
            (case map_of (relations e) t of
               None \<Rightarrow> Inl UndefinedTable
             | Some r \<Rightarrow>
                 bind_err
                   (map_err (\<lambda>x. conjunct_pred (cols r) (fst (fst x)) (fst (snd x)) (snd (snd x)))
                      (zip cs (zip os ls)))
                   (\<lambda>preds. Inr (filter (\<lambda>row. list_all (\<lambda>p. p row) preds)
                                    (map (present (cols r)) (rows r))))))))"

text \<open>The value stored in a column of catalog type \<open>ty\<close> for a literal.\<close>

definition store_value :: "string \<Rightarrow> literal \<Rightarrow> error + sqlval" where
  "store_value ty l =
     (case l of
        LNull \<Rightarrow> Inr SNull
      | LInt i \<Rightarrow>
          (if ty = ''bigint'' then Inr (SInt i)
           else if ty = ''numeric'' then Inr (SNum (of_int i))
           else Inl DatatypeMismatch)
      | LNum q \<Rightarrow> (if ty = ''numeric'' then Inr (SNum q) else Inl DatatypeMismatch)
      | LText s \<Rightarrow> (if ty = ''character varying'' then Inr (SText s) else Inl DatatypeMismatch)
      | LJson v \<Rightarrow> (if ty = ''json'' then Inr (SJson v) else Inl DatatypeMismatch)
      | _ \<Rightarrow> Inl DatatypeMismatch)"

definition engine_insert ::
  "engine \<Rightarrow> string \<Rightarrow> string list \<Rightarrow> param pydict option \<Rightarrow> error + engine" where
  "engine_insert e t ks ps =
     bind_err (map_err (bind_placeholder ps) ks) (\<lambda>ls.
       if ks = [] then Inl SyntaxError
       else
         (case map_of (relations e) t of
            None \<Rightarrow> Inl UndefinedTable
          | Some r \<Rightarrow>
              bind_err
                (map_err (\<lambda>x. case map_of (cols r) (fst x) of
                                 None \<Rightarrow> Inl UndefinedColumn
                               | Some ty \<Rightarrow> store_value ty (snd x))
                   (zip ks ls))
                (\<lambda>vs. Inr (e\<lparr>relations :=
                              AList.update t (r\<lparr>rows := rows r @ [zip ks vs]\<rparr>) (relations e)\<rparr>))))"

fun engine_exec :: "engine \<Rightarrow> stmt \<Rightarrow> param pydict option \<Rightarrow> error + (result \<times> engine)" where
  "engine_exec e (SelectExists t) ps = Inr (Flag (map_of (relations e) t \<noteq> None), e)"
| "engine_exec e (SelectColumns t) ps =
     Inr (Catalog (case map_of (relations e) t of None \<Rightarrow> [] | Some r \<Rightarrow> cols r), e)"
| "engine_exec e (CreateTable t) ps =
     (case map_of (relations e) t of
        Some r \<Rightarrow> Inl DuplicateTable
      | None \<Rightarrow>
          Inr (NoResult, e\<lparr>relations := AList.update t \<lparr>cols = [], rows = []\<rparr> (relations e)\<rparr>))"
| "engine_exec e (AlterAddColumn t c ty) ps =
     (case map_of (relations e) t of
        None \<Rightarrow> Inl UndefinedTable
      | Some r \<Rightarrow>
          (case map_of data_types ty of
             None \<Rightarrow> Inl UndefinedObject
           | Some dt \<Rightarrow>
               (if map_of (cols r) c \<noteq> None then Inr (NoResult, e)
                else Inr (NoResult,
                       e\<lparr>relations := AList.update t (r\<lparr>cols := cols r @ [(c, dt)]\<rparr>) (relations e)\<rparr>))))"
| "engine_exec e (InsertInto t ks) ps =
     bind_err (engine_insert e t ks ps) (\<lambda>e'. Inr (NoResult, e'))"
| "engine_exec e (SelectFrom t w) ps =
     bind_err (engine_select e t w ps) (\<lambda>rs. Inr (Rows rs, e))"
| "engine_exec e (TruncateTable t) ps =
     (case map_of (relations e) t of
        None \<Rightarrow> Inl UndefinedTable
      | Some r \<Rightarrow> Inr (NoResult, e\<lparr>relations := AList.update t (r\<lparr>rows := []\<rparr>) (relations e)\<rparr>))"

section \<open>The connection\<close>

text \<open>
  A request of the program to the engine: a call of \<^verbatim>\<open>cursor.execute\<close> with its statement
  and parameters, or a call of \<^verbatim>\<open>connection.commit\<close>. An engine answers a request in its
  current state with an error or with what the cursor then holds, and moves to a new
  state; this covers every deterministic engine, whatever it makes of the statement
  text, of a failed statement or of a commit.
\<close>

datatype event = Exec stmt "param pydict option" | Commit

type_synonym 's engine_fun = "'s \<Rightarrow> event \<Rightarrow> (error + result) \<times> 's"

text \<open>
  The psycopg2 connection: the state of the engine, and the trace of the requests the
  program has sent over it. A method of the program takes the engine and the connection
  and returns its outcome together with the connection as the method left it, also when
  it raised.
\<close>

record 's connection =
  db :: 's
  trace :: "event list"

definition send ::
  "'s engine_fun \<Rightarrow> event \<Rightarrow> 's connection \<Rightarrow> (error + result) \<times> 's connection" where
  "send X ev c = (case X (db c) ev of (r, s) \<Rightarrow> (r, c\<lparr>db := s, trace := trace c @ [ev]\<rparr>))"

definition execute ::
  "'s engine_fun \<Rightarrow> stmt \<Rightarrow> param pydict option \<Rightarrow> 's connection \<Rightarrow>
     (error + result) \<times> 's connection" where
  "execute X st ps c = send X (Exec st ps) c"

definition commit :: "'s engine_fun \<Rightarrow> 's connection \<Rightarrow> (error + unit) \<times> 's connection" where
  "commit X c =
     (case send X Commit c of
        (Inl e, c') \<Rightarrow> (Inl e, c')
      | (Inr r, c') \<Rightarrow> (Inr (), c'))"

text \<open>
  \<^verbatim>\<open>cursor.fetchall()\<close> on what the cursor holds: a cursor on which nothing was executed
  (or a statement without result rows) has no results to fetch.
\<close>

fun fetchall :: "result option \<Rightarrow> error + row list" where
  "fetchall (Some (Rows rs)) = Inr rs"
| "fetchall r = Inl NoResultsToFetch"

text \<open>
  The engine of the previous section as an engine function: a failed statement leaves
  the state as it was, and a commit succeeds.
\<close>

fun engine_step :: "engine engine_fun" where
  "engine_step e (Exec st ps) =
     (case engine_exec e st ps of
        Inl err \<Rightarrow> (Inl err, e)
      | Inr (r, e') \<Rightarrow> (Inr r, e'))"
| "engine_step e Commit = (Inr NoResult, e)"

text \<open>
  PostgreSQL reads an identifier that is not double-quoted in lower case, while a name
  inside a string literal, as in the two catalog reads, is compared as it is written.
  \<open>postgres\<close> is \<open>engine_step\<close> behind this folding. A placeholder keeps its key; here the
  key is renamed together with the column it follows, in the statement and in the
  parameters, which binds the same values as long as no two keys of a statement fold to
  the same name.
\<close>

definition lower_char :: "char \<Rightarrow> char" where
  "lower_char ch =
     (case map_of (zip ''ABCDEFGHIJKLMNOPQRSTUVWXYZ'' ''abcdefghijklmnopqrstuvwxyz'') ch of
        None \<Rightarrow> ch
      | Some l \<Rightarrow> l)"

definition fold_identifier :: "string \<Rightarrow> string" where
  "fold_identifier s = map lower_char s"

definition fold_params :: "param pydict option \<Rightarrow> param pydict option" where
  "fold_params ps = map_option (map (\<lambda>kv. (fold_identifier (fst kv), snd kv))) ps"

fun fold_event :: "event \<Rightarrow> event" where
  "fold_event (Exec (CreateTable n) ps) = Exec (CreateTable (fold_identifier n)) ps"
| "fold_event (Exec (AlterAddColumn n k ty) ps) =
     Exec (AlterAddColumn (fold_identifier n) (fold_identifier k) (fold_identifier ty)) ps"
| "fold_event (Exec (InsertInto n ks) ps) =
     Exec (InsertInto (fold_identifier n) (map fold_identifier ks)) (fold_params ps)"
| "fold_event (Exec (SelectFrom n (WhereFields cs)) ps) =
     Exec (SelectFrom (fold_identifier n)
             (WhereFields (map (\<lambda>c. (fold_identifier (fst c), snd c)) cs)))
       (fold_params ps)"
| "fold_event (Exec (SelectFrom n w) ps) = Exec (SelectFrom (fold_identifier n) w) ps"
| "fold_event (Exec (TruncateTable n) ps) = Exec (TruncateTable (fold_identifier n)) ps"
| "fold_event ev = ev"

definition postgres :: "engine engine_fun" where
  "postgres e ev = engine_step e (fold_event ev)"

section \<open>class Table\<close>

text \<open>
  A \<open>Table\<close> object: its identity and its name (its connection is the one passed to
  each method).
\<close>

record Table =
  table_id :: nat
  table_name :: string

text \<open>
  A \<open>Helenus\<close> object: the registry \<^verbatim>\<open>self.tables\<close>, the connection, and the number of
  \<open>Table\<close> objects created so far, which gives each new object its identity.
\<close>

record 's Helenus =
  tables :: "Table pydict"
  connection :: "'s connection"
  next_id :: nat

definition type_mapping :: "(pytype \<times> string) list" where
  "type_mapping =
     [(T_str, ''varchar''), (T_int, ''bigint''), (T_float, ''numeric''),
      (T_list, ''json''), (T_dict, ''json'')]"

text \<open>\<^verbatim>\<open>_exists\<close>: \<^verbatim>\<open>fetchone()[0]\<close> of the catalog's answer.\<close>

definition Table_exists ::
  "'s engine_fun \<Rightarrow> Table \<Rightarrow> 's connection \<Rightarrow> (error + bool) \<times> 's connection" where
  "Table_exists X t c =
     (case execute X (SelectExists (table_name t)) None c of
        (Inl e, c') \<Rightarrow> (Inl e, c')
      | (Inr (Flag b), c') \<Rightarrow> (Inr b, c')
      | (Inr _, c') \<Rightarrow> (Inl TypeError, c'))"

text \<open>\<^verbatim>\<open>columns\<close>: \<^verbatim>\<open>{i['column_name']: i['data_type'] for i in res}\<close>\<close>

definition columns ::
  "'s engine_fun \<Rightarrow> Table \<Rightarrow> 's connection \<Rightarrow> (error + string pydict) \<times> 's connection" where
  "columns X t c =
     (case execute X (SelectColumns (table_name t)) None c of
        (Inl e, c') \<Rightarrow> (Inl e, c')
      | (Inr (Catalog cs), c') \<Rightarrow> (Inr (dict_of cs), c')
      | (Inr _, c') \<Rightarrow> (Inl TypeError, c'))"

definition add_column ::
  "'s engine_fun \<Rightarrow> Table \<Rightarrow> string \<Rightarrow> string \<Rightarrow> 's connection \<Rightarrow>
     (error + unit) \<times> 's connection" where
  "add_column X t n ty c =
     (case execute X (AlterAddColumn (table_name t) n ty) None c of
        (Inl e, c') \<Rightarrow> (Inl e, c')
      | (Inr _, c') \<Rightarrow> (Inr (), c'))"

text \<open>
  \<^verbatim>\<open>__init__\<close>: the object with identity \<open>i\<close> for the table \<open>n\<close>. The last step is the
  call of \<^verbatim>\<open>self.columns()\<close> in the argument of the logging call.
\<close>

definition Table_init ::
  "'s engine_fun \<Rightarrow> nat \<Rightarrow> string \<Rightarrow> 's connection \<Rightarrow> (error + Table) \<times> 's connection" where
  "Table_init X i n c =
     (let t = \<lparr>table_id = i, table_name = n\<rparr>
      in case Table_exists X t c of
           (Inl e, c1) \<Rightarrow> (Inl e, c1)
         | (Inr b, c1) \<Rightarrow>
             (case (if b then (Inr (), c1)
                    else (case execute X (CreateTable n) None c1 of
                            (Inl e, c2) \<Rightarrow> (Inl e, c2)
                          | (Inr r, c2) \<Rightarrow> commit X c2)) of
                (Inl e, c3) \<Rightarrow> (Inl e, c3)
              | (Inr _, c3) \<Rightarrow>
                  (case columns X t c3 of
                     (Inl e, c4) \<Rightarrow> (Inl e, c4)
                   | (Inr _, c4) \<Rightarrow> (Inr t, c4))))"

text \<open>
  The loop of \<^verbatim>\<open>insert\<close> over \<^verbatim>\<open>obj.items()\<close>: the column map is read again for every
  key; the storage type is looked up (and may raise \<open>KeyError\<close>) before
  \<^verbatim>\<open>add_column\<close> is called.
\<close>

fun insert_columns ::
  "'s engine_fun \<Rightarrow> Table \<Rightarrow> (string \<times> pyval) list \<Rightarrow> 's connection \<Rightarrow>
     (error + unit) \<times> 's connection" where
  "insert_columns X t [] c = (Inr (), c)"
| "insert_columns X t (kv # rest) c =
     (case columns X t c of
        (Inl e, c1) \<Rightarrow> (Inl e, c1)
      | (Inr cs, c1) \<Rightarrow>
          (if map_of cs (fst kv) \<noteq> None then insert_columns X t rest c1
           else
             (case getitem type_mapping (type_of (snd kv)) of
                Inl e \<Rightarrow> (Inl e, c1)
              | Inr ty \<Rightarrow>
                  (case add_column X t (fst kv) ty c1 of
                     (Inl e, c2) \<Rightarrow> (Inl e, c2)
                   | (Inr _, c2) \<Rightarrow> insert_columns X t rest c2))))"

text \<open>
  The parameters of the INSERT:
  \<^verbatim>\<open>{k: (json.dumps(v) if _cols[k] == 'json' else v) for k, v in obj.items()}\<close>
\<close>

definition insert_value :: "string pydict \<Rightarrow> string \<times> pyval \<Rightarrow> error + string \<times> param" where
  "insert_value cs kv =
     bind_err (getitem cs (fst kv)) (\<lambda>ty.
       bind_err (if ty = ''json'' then json_dumps (snd kv) else Inr (Plain (snd kv)))
         (\<lambda>p. Inr (fst kv, p)))"

definition insert_params :: "string pydict \<Rightarrow> (string \<times> pyval) list \<Rightarrow> error + param pydict" where
  "insert_params cs obj = bind_err (map_err (insert_value cs) obj) (\<lambda>kps. Inr (dict_of kps))"

text \<open>
  \<^verbatim>\<open>insert\<close> after its loop: the column map is read once more, the parameters are built,
  the INSERT is executed and the transaction committed.
\<close>

definition insert_row ::
  "'s engine_fun \<Rightarrow> Table \<Rightarrow> (string \<times> pyval) list \<Rightarrow> 's connection \<Rightarrow>
     (error + unit) \<times> 's connection" where
  "insert_row X t obj c1 =
     (let st = InsertInto (table_name t) (map fst obj)
      in case columns X t c1 of
           (Inl e, c2) \<Rightarrow> (Inl e, c2)
         | (Inr cs, c2) \<Rightarrow>
             (case insert_params cs obj of
                Inl e \<Rightarrow> (Inl e, c2)
              | Inr ps \<Rightarrow>
                  (case execute X st (Some ps) c2 of
                     (Inl e, c3) \<Rightarrow> (Inl e, c3)
                   | (Inr _, c3) \<Rightarrow> commit X c3)))"

definition insert ::
  "'s engine_fun \<Rightarrow> Table \<Rightarrow> (string \<times> pyval) list \<Rightarrow> 's connection \<Rightarrow>
     (error + unit) \<times> 's connection" where
  "insert X t obj c =
     (case insert_columns X t obj c of
        (Inl e, c1) \<Rightarrow> (Inl e, c1)
      | (Inr _, c1) \<Rightarrow> insert_row X t obj c1)"

text \<open>
  A positional argument of \<^verbatim>\<open>query\<close>: an instance of \<open>Field\<close>, a \<open>str\<close>, or a value
  that is neither.
\<close>

datatype arg = AField Field | AStr string | AOther pyval

text \<open>\<^verbatim>\<open>all(isinstance(f, Field) for f in args)\<close>, with the fields when it holds.\<close>

fun all_fields :: "arg list \<Rightarrow> Field list option" where
  "all_fields [] = Some []"
| "all_fields (AField f # as) = map_option ((#) f) (all_fields as)"
| "all_fields (a # as) = None"

text \<open>\<^verbatim>\<open>{f.name: f.value for f in args}\<close>\<close>

definition fmt_values :: "Field list \<Rightarrow> param pydict" where
  "fmt_values fs = dict_of (map (\<lambda>f. (fname f, Plain (fvalue f))) fs)"

text \<open>The statement \<^verbatim>\<open>query\<close> builds from filter expressions.\<close>

definition query_stmt :: "Table \<Rightarrow> Field list \<Rightarrow> stmt" where
  "query_stmt t fs =
     SelectFrom (table_name t)
       (if length fs \<noteq> 0 then WhereFields (map (\<lambda>f. (fname f, format_op (fop f))) fs)
        else NoWhere)"

definition query ::
  "'s engine_fun \<Rightarrow> Table \<Rightarrow> arg list \<Rightarrow> 's connection \<Rightarrow>
     (error + row list) \<times> 's connection" where
  "query X t args c =
     (case all_fields args of
        Some fs \<Rightarrow>
          (case execute X (query_stmt t fs) (Some (fmt_values fs)) c of
             (Inl e, c') \<Rightarrow> (Inl e, c')
           | (Inr r, c') \<Rightarrow> (fetchall (Some r), c'))
      | None \<Rightarrow>
          (case args of
             [AStr s] \<Rightarrow>
               (case execute X (SelectFrom (table_name t) (WhereRaw s)) None c of
                  (Inl e, c') \<Rightarrow> (Inl e, c')
                | (Inr r, c') \<Rightarrow> (fetchall (Some r), c'))
           | _ \<Rightarrow> (fetchall None, c)))"

definition truncate ::
  "'s engine_fun \<Rightarrow> Table \<Rightarrow> 's connection \<Rightarrow> (error + unit) \<times> 's connection" where
  "truncate X t c =
     (case execute X (TruncateTable (table_name t)) None c of
        (Inl e, c') \<Rightarrow> (Inl e, c')
      | (Inr _, c') \<Rightarrow> commit X c')"

section \<open>class Helenus\<close>

text \<open>
  \<^verbatim>\<open>self.tables[name] = self.tables.get(name, Table(self.connection, name))\<close>: the
  default argument is evaluated, so a \<open>Table\<close> object is constructed on every call.
\<close>

definition table ::
  "'s engine_fun \<Rightarrow> 's Helenus \<Rightarrow> string \<Rightarrow> (error + Table) \<times> 's Helenus" where
  "table X h n =
     (case Table_init X (next_id h) n (connection h) of
        (Inl e, c') \<Rightarrow> (Inl e, h\<lparr>connection := c', next_id := Suc (next_id h)\<rparr>)
      | (Inr new, c') \<Rightarrow>
          (let t = (case map_of (tables h) n of None \<Rightarrow> new | Some old \<Rightarrow> old)
           in (Inr t, h\<lparr>tables := AList.update n t (tables h), connection := c',
                       next_id := Suc (next_id h)\<rparr>)))"

section \<open>Notions used to state the properties\<close>

text \<open>
  The safe identifier charset the specification names: letters, digits and the
  underscore. The source has no function that checks it.
\<close>

definition safe_char :: "char \<Rightarrow> bool" where
  "safe_char ch =
     (let n = (of_char ch :: nat)
      in (48 \<le> n \<and> n \<le> 57) \<or> (65 \<le> n \<and> n \<le> 90) \<or> (97 \<le> n \<and> n \<le> 122) \<or> n = 95)"

definition safe_identifier :: "string \<Rightarrow> bool" where
  "safe_identifier s = (s \<noteq> [] \<and> list_all safe_char s)"

text \<open>
  In the engine of the previous section: the type the catalog reports for a column of a
  relation, and the rows written to a relation.
\<close>

definition col_type :: "engine \<Rightarrow> string \<Rightarrow> string \<Rightarrow> string option" where
  "col_type e n k = (case map_of (relations e) n of None \<Rightarrow> None | Some r \<Rightarrow> map_of (cols r) k)"

definition stored_rows :: "engine \<Rightarrow> string \<Rightarrow> row list" where
  "stored_rows e n = (case map_of (relations e) n of None \<Rightarrow> [] | Some r \<Rightarrow> rows r)"

text \<open>
  The connection after a request, and the connections reached by sending a list of
  requests that all satisfy \<open>P\<close>.
\<close>

definition step :: "'s engine_fun \<Rightarrow> 's connection \<Rightarrow> event \<Rightarrow> 's connection" where
  "step X c ev = snd (send X ev c)"

definition sends :: "'s engine_fun \<Rightarrow> (event \<Rightarrow> bool) \<Rightarrow> 's connection \<Rightarrow> 's connection \<Rightarrow> bool" where
  "sends X P c c' = (\<exists>evs. list_all P evs \<and> c' = foldl (step X) c evs)"

text \<open>The requests of the loop of \<open>insert\<close>: catalog reads of the columns and ADD COLUMN.\<close>

fun loop_event :: "event \<Rightarrow> bool" where
  "loop_event (Exec (SelectColumns n) ps) = True"
| "loop_event (Exec (AlterAddColumn n k ty) ps) = True"
| "loop_event ev = False"

text \<open>
  A caller's operation on a collection handle, and a sequence of them. An operation
  that raises leaves the connection as it was at the raise; the caller goes on.
\<close>

datatype operation = OpInsert "(string \<times> pyval) list" | OpQuery "arg list" | OpTruncate

fun apply_operation :: "'s engine_fun \<Rightarrow> Table \<Rightarrow> operation \<Rightarrow> 's connection \<Rightarrow> 's connection" where
  "apply_operation X t (OpInsert obj) c = snd (insert X t obj c)"
| "apply_operation X t (OpQuery args) c = snd (query X t args c)"
| "apply_operation X t OpTruncate c = snd (truncate X t c)"

definition run :: "'s engine_fun \<Rightarrow> Table \<Rightarrow> operation list \<Rightarrow> 's connection \<Rightarrow> 's connection" where
  "run X t ops c = foldl (\<lambda>c p. apply_operation X t p c) c ops"

text \<open>
  An operation whose texts are safe: the keys of a record and the field names of filter
  expressions are safe identifiers, the operators are those the methods of \<open>Field\<close> set,
  and no raw predicate string is passed.
\<close>

definition builder_ops :: "string list" where
  "builder_ops = [''='', ''>'', ''<'', ''>='', ''<='', exists_op]"

fun safe_arg :: "arg \<Rightarrow> bool" where
  "safe_arg (AField f) = (safe_identifier (fname f) \<and> fop f \<in> Some ` set builder_ops)"
| "safe_arg a = False"

fun safe_operation :: "operation \<Rightarrow> bool" where
  "safe_operation (OpInsert obj) = list_all safe_identifier (map fst obj)"
| "safe_operation (OpQuery args) = list_all safe_arg args"
| "safe_operation OpTruncate = True"

text \<open>
  A request on the table \<open>n\<close> in which every interpolated text is a safe identifier, a
  storage type of the mapping or an operator of \<open>Field\<close>: a catalog read of the columns,
  ADD COLUMN IF NOT EXISTS, INSERT, SELECT without a raw predicate, TRUNCATE, or a
  commit.
\<close>

fun safe_where :: "where_clause \<Rightarrow> bool" where
  "safe_where NoWhere = True"
| "safe_where (WhereFields cs) =
     list_all (\<lambda>c. safe_identifier (fst c) \<and> snd c \<in> set builder_ops) cs"
| "safe_where (WhereRaw s) = False"

fun safe_stmt :: "string \<Rightarrow> stmt \<Rightarrow> bool" where
  "safe_stmt n (SelectColumns m) = (m = n)"
| "safe_stmt n (AlterAddColumn m k ty) =
     (m = n \<and> safe_identifier k \<and> ty \<in> snd ` set type_mapping)"
| "safe_stmt n (InsertInto m ks) = (m = n \<and> list_all safe_identifier ks)"
| "safe_stmt n (SelectFrom m w) = (m = n \<and> safe_where w)"
| "safe_stmt n (TruncateTable m) = (m = n)"
| "safe_stmt n st = False"

fun safe_event :: "string \<Rightarrow> event \<Rightarrow> bool" where
  "safe_event n Commit = True"
| "safe_event n (Exec st ps) = (safe_identifier n \<and> safe_stmt n st)"

text \<open>
  An engine that answers the safe requests on the table \<open>n\<close> as \<open>engine_step\<close> does and
  loses every relation at any other request.
\<close>

definition strict_engine :: "string \<Rightarrow> engine engine_fun" where
  "strict_engine n e ev =
     (if safe_event n ev then engine_step e ev else (Inr NoResult, e\<lparr>relations := []\<rparr>))"

text \<open>
  A state the program reaches: the collection \<open>test\<close> after
  \<^verbatim>\<open>insert({"integer": 3, "string": ""})\<close> on a fresh table.
\<close>

definition example_table :: Table where
  "example_table = \<lparr>table_id = 0, table_name = ''test''\<rparr>"

definition example_connection :: "engine connection" where
  "example_connection =
     \<lparr>db = \<lparr>relations =
             [(''test'',
               \<lparr>cols = [(''integer'', ''bigint''), (''string'', ''character varying'')],
                rows = [[(''integer'', SInt 3), (''string'', SText [])]]\<rparr>)],
           raw_predicate = (\<lambda>s. None)\<rparr>,
      trace = []\<rparr>"

text \<open>
  A collection with a column that was created elsewhere under a double-quoted name.
\<close>

definition example_quoted_connection :: "engine connection" where
  "example_quoted_connection =
     \<lparr>db = \<lparr>relations =
             [(''test'', \<lparr>cols = [(''first name'', ''character varying'')], rows = []\<rparr>)],
           raw_predicate = (\<lambda>s. None)\<rparr>,
      trace = []\<rparr>"

text \<open>A fresh session: no relation in the engine, no handle registered.\<close>

definition example_helenus :: "engine Helenus" where
  "example_helenus =
     \<lparr>tables = [],
      connection = \<lparr>db = \<lparr>relations = [], raw_predicate = (\<lambda>s. None)\<rparr>, trace = []\<rparr>,
      next_id = 0\<rparr>"

section \<open>Auxiliary facts\<close>

subsection \<open>Dictionaries\<close>

lemma foldl_update_map_of:
  "map_of (foldl (\<lambda>d (k, v). AList.update k v d) d kvs) = map_of d ++ map_of (rev kvs)"
  by (induction kvs arbitrary: d)
    (auto simp: update_conv' map_add_def fun_eq_iff split: option.splits)

lemma map_of_dict_of: "map_of (dict_of kvs) = map_of (rev kvs)"
  by (simp add: dict_of_def foldl_update_map_of)

lemma foldl_update_distinct:
  "distinct (map fst d) \<Longrightarrow> distinct (map fst (foldl (\<lambda>d (k, v). AList.update k v d) d kvs))"
  by (induction kvs arbitrary: d) (auto simp: distinct_update)

lemma distinct_dict_of: "distinct (map fst (dict_of kvs))"
  by (simp add: dict_of_def foldl_update_distinct)

lemma map_of_dict_of_None: "map_of (dict_of kvs) k = None \<longleftrightarrow> k \<notin> fst ` set kvs"
  by (simp add: map_of_dict_of map_of_eq_None_iff)

lemma dict_of_None_iff: "map_of (dict_of kvs) k = None \<longleftrightarrow> map_of kvs k = None"
  by (metis map_of_dict_of_None map_of_eq_None_iff)

lemma map_of_dict_of_last:
  "\<forall>x\<in>set post. fst x \<noteq> k \<Longrightarrow> map_of (dict_of (pre @ (k, v) # post)) k = Some v"
  by (induction post rule: rev_induct) (auto simp: map_of_dict_of)




text \<open>
  Two dictionaries with the same keys in the same order that agree outside the key \<open>k\<close>
  stay so under the same updates, and become equal once \<open>k\<close> is stored.
\<close>

lemma agree_update:
  "list_all2 (\<lambda>x y. fst x = fst y \<and> (fst x \<noteq> k \<longrightarrow> snd x = snd y)) d d' \<Longrightarrow>
   list_all2 (\<lambda>x y. fst x = fst y \<and> (fst x \<noteq> k \<longrightarrow> snd x = snd y))
     (AList.update k' v d) (AList.update k' v d')"
  by (induction d d' rule: list_all2_induct) auto

lemma agree_update_key:
  "list_all2 (\<lambda>x y. fst x = fst y \<and> (fst x \<noteq> k \<longrightarrow> snd x = snd y)) d d' \<Longrightarrow>
   list_all2 (\<lambda>x y. fst x = fst y \<and> (fst x \<noteq> k \<longrightarrow> snd x = snd y))
     (AList.update k a d) (AList.update k a' d')"
  by (induction d d' rule: list_all2_induct) auto

lemma agree_foldl_update:
  "list_all2 (\<lambda>x y. fst x = fst y \<and> (fst x \<noteq> k \<longrightarrow> snd x = snd y)) d d' \<Longrightarrow>
   list_all2 (\<lambda>x y. fst x = fst y \<and> (fst x \<noteq> k \<longrightarrow> snd x = snd y))
     (foldl (\<lambda>d (k, v). AList.update k v d) d kvs)
     (foldl (\<lambda>d (k, v). AList.update k v d) d' kvs)"
proof (induction kvs arbitrary: d d')
  case Nil
  then show ?case by simp
next
  case (Cons kv kvs)
  obtain k' v where kv: "kv = (k', v)" by (cases kv)
  from Cons.IH [OF agree_update [OF Cons.prems, of k' v]] kv show ?case by simp
qed

lemma agree_without_key:
  "list_all2 (\<lambda>x y. fst x = fst y \<and> (fst x \<noteq> k \<longrightarrow> snd x = snd y)) d d' \<Longrightarrow>
   k \<notin> fst ` set d \<Longrightarrow> d = d'"
proof (induction d d' rule: list_all2_induct)
  case Nil
  show ?case by simp
next
  case (Cons x xs y ys)
  from Cons.prems have "fst x \<noteq> k" and "k \<notin> fst ` set xs" by auto
  with Cons.hyps(1) Cons.IH have "x = y" and "xs = ys" by (simp_all add: prod_eq_iff)
  then show ?case by simp
qed

lemma agree_update_equal:
  "list_all2 (\<lambda>x y. fst x = fst y \<and> (fst x \<noteq> k \<longrightarrow> snd x = snd y)) d d' \<Longrightarrow>
   distinct (map fst d) \<Longrightarrow> AList.update k v d = AList.update k v d'"
proof (induction d d' rule: list_all2_induct)
  case Nil
  show ?case by simp
next
  case (Cons x xs y ys)
  obtain kx vx where x: "x = (kx, vx)" by (cases x)
  obtain ky vy where y: "y = (ky, vy)" by (cases y)
  from Cons.hyps(1) x y have k: "ky = kx" by simp
  show ?case
  proof (cases "kx = k")
    case True
    with Cons.prems x have "k \<notin> fst ` set xs" by auto
    with Cons.hyps(2) have "xs = ys" by (rule agree_without_key)
    with True x y k show ?thesis by simp
  next
    case False
    with Cons.hyps(1) x y have v: "vy = vx" by simp
    from Cons.prems have "distinct (map fst xs)" by simp
    then have "AList.update k v xs = AList.update k v ys" by (rule Cons.IH)
    with False x y k v show ?thesis by simp
  qed
qed

lemma dict_of_earlier_value:
  "dict_of (pre @ (k, a) # mid @ (k, b) # post) = dict_of (pre @ (k, a') # mid @ (k, b) # post)"
proof -
  define F :: "(string \<times> 'a) list \<Rightarrow> (string \<times> 'a) list \<Rightarrow> (string \<times> 'a) list"
    where "F = foldl (\<lambda>d (k, v). AList.update k v d)"
  define d where "d = F [] pre"
  have dd: "distinct (map fst d)"
    unfolding d_def F_def by (rule foldl_update_distinct) simp
  have "list_all2 (\<lambda>x y. fst x = fst y \<and> (fst x \<noteq> k \<longrightarrow> snd x = snd y)) d d"
    by (simp add: list_all2_refl)
  then have "list_all2 (\<lambda>x y. fst x = fst y \<and> (fst x \<noteq> k \<longrightarrow> snd x = snd y))
      (AList.update k a d) (AList.update k a' d)"
    by (rule agree_update_key)
  then have m: "list_all2 (\<lambda>x y. fst x = fst y \<and> (fst x \<noteq> k \<longrightarrow> snd x = snd y))
      (F (AList.update k a d) mid) (F (AList.update k a' d) mid)"
    unfolding F_def by (rule agree_foldl_update)
  from dd have "distinct (map fst (AList.update k a d))" by (simp add: distinct_update)
  then have "distinct (map fst (F (AList.update k a d) mid))"
    unfolding F_def by (rule foldl_update_distinct)
  from agree_update_equal [OF m this]
  have "AList.update k b (F (AList.update k a d) mid) =
        AList.update k b (F (AList.update k a' d) mid)" .
  then show ?thesis by (simp add: dict_of_def F_def d_def)
qed

subsection \<open>Requests\<close>

lemma execute_trace: "trace (snd (execute X st ps c)) = trace c @ [Exec st ps]"
  by (simp add: execute_def send_def split: prod.splits)

lemma fst_execute: "fst (execute X st ps c) = fst (X (db c) (Exec st ps))"
  by (simp add: execute_def send_def split: prod.splits)

lemma snd_execute: "snd (execute X st ps c) = step X c (Exec st ps)"
  by (simp add: execute_def step_def)

lemma snd_commit: "snd (commit X c) = step X c Commit"
  by (simp add: commit_def step_def split: prod.splits sum.splits)

lemma execute_engine_step:
  "execute engine_step st ps c =
     (case engine_exec (db c) st ps of
        Inl e \<Rightarrow> (Inl e, c\<lparr>trace := trace c @ [Exec st ps]\<rparr>)
      | Inr (r, e') \<Rightarrow> (Inr r, c\<lparr>db := e', trace := trace c @ [Exec st ps]\<rparr>))"
  by (simp add: execute_def send_def split: sum.splits prod.splits)

lemma commit_engine_step:
  "commit engine_step c = (Inr (), c\<lparr>trace := trace c @ [Commit]\<rparr>)"
  by (simp add: commit_def send_def)

lemma columns_eq:
  "columns engine_step t c =
     (Inr (dict_of (case map_of (relations (db c)) (table_name t) of
                      None \<Rightarrow> [] | Some r \<Rightarrow> cols r)),
      c\<lparr>trace := trace c @ [Exec (SelectColumns (table_name t)) None]\<rparr>)"
  by (simp add: columns_def execute_engine_step)

lemma all_fields_None_iff:
  "all_fields args = None \<longleftrightarrow> (\<exists>a\<in>set args. \<forall>f. a \<noteq> AField f)"
  by (induction args rule: all_fields.induct) auto

lemma all_fields_map: "all_fields (map AField fs) = Some fs"
  by (induction fs) auto

lemma query_trace:
  "trace (snd (query X t (map AField fs) c)) =
     trace c @ [Exec (query_stmt t fs) (Some (fmt_values fs))]"
proof -
  obtain r c' where e: "execute X (query_stmt t fs) (Some (fmt_values fs)) c = (r, c')"
    by fastforce
  with execute_trace [of X "query_stmt t fs" "Some (fmt_values fs)" c]
  have "trace c' = trace c @ [Exec (query_stmt t fs) (Some (fmt_values fs))]" by simp
  with e show ?thesis
    by (cases r) (simp_all add: query_def all_fields_map)
qed

lemma query_result:
  "fst (query X t (map AField fs) c) =
     (case fst (X (db c) (Exec (query_stmt t fs) (Some (fmt_values fs)))) of
        Inl e \<Rightarrow> Inl e
      | Inr r \<Rightarrow> fetchall (Some r))"
proof -
  obtain r c' where e: "execute X (query_stmt t fs) (Some (fmt_values fs)) c = (r, c')"
    by fastforce
  with fst_execute [of X "query_stmt t fs" "Some (fmt_values fs)" c]
  have "fst (X (db c) (Exec (query_stmt t fs) (Some (fmt_values fs)))) = r" by simp
  with e show ?thesis
    by (cases r) (simp_all add: query_def all_fields_map)
qed

lemma sublist_join: "k \<in> set ks \<Longrightarrow> sublist k (join sep ks)"
proof (induction sep ks rule: join.induct)
  case (3 sep x y ys)
  show ?case
  proof (cases "k = x")
    case True
    then show ?thesis by simp
  next
    case False
    with 3 have "sublist k (join sep (y # ys))" by simp
    then obtain ps ss where "join sep (y # ys) = ps @ k @ ss" by (auto simp: sublist_def)
    then have "join sep (x # y # ys) = (x @ sep @ ps) @ k @ ss" by simp
    then show ?thesis unfolding sublist_def by blast
  qed
qed simp_all

subsection \<open>The engine of the examples\<close>

lemma parse_exists_op: "parse_op exists_op = Some NotNullAndEmptyEq"
  by (simp add: parse_op_def exists_op_def)

lemma exists_select:
  "engine_select e n (WhereFields [(f, exists_op)]) (Some [(f, Plain (PStr []))]) =
     (case map_of (relations e) n of
        None \<Rightarrow> Inl UndefinedTable
      | Some r \<Rightarrow>
          (case map_of (cols r) f of
             None \<Rightarrow> Inl UndefinedColumn
           | Some ty \<Rightarrow> Inr (filter (\<lambda>row. cell row f \<noteq> SNull) (map (present (cols r)) (rows r)))))"
  by (simp add: engine_select_def bind_err_def bind_placeholder_def getitem_def parse_ops_def
      parse_exists_op conjunct_pred_def split: option.splits)

lemma query_exists:
  "fst (query engine_step t [AField (exists (Field_init f))] c) =
     engine_select (db c) (table_name t) (WhereFields [(f, exists_op)]) (Some [(f, Plain (PStr []))])"
  by (simp add: query_def query_stmt_def fmt_values_def dict_of_def exists_def Field_init_def
      format_op_def execute_engine_step bind_err_def split: sum.splits)


lemmas example_defs = example_table_def example_connection_def query_stmt_def fmt_values_def
  dict_of_def equals_def Field_init_def format_op_def conjunct_text_def

subsection \<open>What the methods send\<close>

lemma sends_refl: "sends X P c c"
proof -
  have "list_all P [] \<and> c = foldl (step X) c []" by simp
  then show ?thesis unfolding sends_def by blast
qed

lemma sends_trans:
  assumes "sends X P a b" and "sends X P b c"
  shows "sends X P a c"
proof -
  from assms obtain xs ys where "list_all P xs" "b = foldl (step X) a xs"
    and "list_all P ys" "c = foldl (step X) b ys"
    unfolding sends_def by blast
  then have "list_all P (xs @ ys) \<and> c = foldl (step X) a (xs @ ys)" by simp
  then show ?thesis unfolding sends_def by blast
qed

lemma sends_step: "P ev \<Longrightarrow> sends X P c (step X c ev)"
proof -
  assume "P ev"
  then have "list_all P [ev] \<and> step X c ev = foldl (step X) c [ev]" by simp
  then show ?thesis unfolding sends_def by blast
qed

lemma sends_mono:
  assumes "sends X P c c'" and "\<And>ev. P ev \<Longrightarrow> Q ev"
  shows "sends X Q c c'"
proof -
  from assms(1) obtain evs where "list_all P evs" "c' = foldl (step X) c evs"
    unfolding sends_def by blast
  with assms(2) have "list_all Q evs \<and> c' = foldl (step X) c evs"
    by (auto simp: list_all_iff)
  then show ?thesis unfolding sends_def by blast
qed

lemma trace_step: "trace (step X c ev) = trace c @ [ev]"
  by (simp add: step_def send_def split: prod.splits)

lemma trace_foldl_step: "trace (foldl (step X) c evs) = trace c @ evs"
  by (induction evs arbitrary: c) (simp_all add: trace_step)

lemma sends_trace:
  "sends X P c c' \<Longrightarrow> \<exists>evs. trace c' = trace c @ evs \<and> list_all P evs"
  unfolding sends_def using trace_foldl_step by blast

lemma sends_invariant:
  assumes "sends X P c c'"
    and "\<And>s ev. P ev \<Longrightarrow> I s \<Longrightarrow> I (snd (X s ev))"
    and "I (db c)"
  shows "I (db c')"
proof -
  have "list_all P evs \<Longrightarrow> I (db a) \<Longrightarrow> I (db (foldl (step X) a evs))" for evs a
  proof (induction evs arbitrary: a)
    case Nil
    then show ?case by simp
  next
    case (Cons ev evs)
    from Cons.prems assms(2) [of ev "db a"] have "I (db (step X a ev))"
      by (auto simp: step_def send_def split: prod.splits)
    with Cons show ?case by simp
  qed
  with assms(1,3) show ?thesis unfolding sends_def by blast
qed

lemma sends_execute: "P (Exec st ps) \<Longrightarrow> sends X P c (snd (execute X st ps c))"
  unfolding snd_execute by (rule sends_step)

lemma sends_commit: "P Commit \<Longrightarrow> sends X P c (snd (commit X c))"
  unfolding snd_commit by (rule sends_step)

lemma snd_columns: "snd (columns X t c) = snd (execute X (SelectColumns (table_name t)) None c)"
  by (simp add: columns_def split: prod.splits sum.splits result.splits)

lemma snd_add_column:
  "snd (add_column X t k ty c) = snd (execute X (AlterAddColumn (table_name t) k ty) None c)"
  by (simp add: add_column_def split: prod.splits sum.splits)

lemma sends_columns:
  "P (Exec (SelectColumns (table_name t)) None) \<Longrightarrow> sends X P c (snd (columns X t c))"
  unfolding snd_columns by (rule sends_execute)

lemma sends_add_column:
  "P (Exec (AlterAddColumn (table_name t) k ty) None) \<Longrightarrow>
   sends X P c (snd (add_column X t k ty c))"
  unfolding snd_add_column by (rule sends_execute)

lemma type_mapping_range: "getitem type_mapping ty = Inr s \<Longrightarrow> s \<in> snd ` set type_mapping"
proof -
  assume "getitem type_mapping ty = Inr s"
  then have "map_of type_mapping ty = Some s"
    by (simp add: getitem_def split: option.splits)
  then have "(ty, s) \<in> set type_mapping" by (rule map_of_SomeD)
  then show ?thesis by force
qed

lemma sends_insert_columns:
  assumes "P (Exec (SelectColumns (table_name t)) None)"
    and "\<And>k ty. k \<in> fst ` set obj \<Longrightarrow> ty \<in> snd ` set type_mapping \<Longrightarrow>
           P (Exec (AlterAddColumn (table_name t) k ty) None)"
  shows "sends X P c (snd (insert_columns X t obj c))"
  using assms(2)
proof (induction obj arbitrary: c)
  case Nil
  show ?case by (simp add: sends_refl)
next
  case (Cons kv rest)
  have rest: "sends X P a (snd (insert_columns X t rest a))" for a
    by (rule Cons.IH) (simp add: Cons.prems)
  obtain r1 c1 where c: "columns X t c = (r1, c1)" by fastforce
  with sends_columns [of P t X c, OF assms(1)] have e1: "sends X P c c1" by simp
  show ?case
  proof (cases r1)
    case (Inl e)
    with c e1 show ?thesis by simp
  next
    case (Inr cs)
    show ?thesis
    proof (cases "map_of cs (fst kv) \<noteq> None")
      case True
      with c Inr have "snd (insert_columns X t (kv # rest) c) = snd (insert_columns X t rest c1)"
        by simp
      with sends_trans [OF e1 rest [of c1]] show ?thesis by simp
    next
      case False
      show ?thesis
      proof (cases "getitem type_mapping (type_of (snd kv))")
        case (Inl e)
        with c Inr False e1 show ?thesis by simp
      next
        case ty: (Inr ty)
        from type_mapping_range [OF ty]
        have "P (Exec (AlterAddColumn (table_name t) (fst kv) ty) None)"
          by (intro Cons.prems) simp_all
        from sends_add_column [of P t "fst kv" ty X c1, OF this]
        have "sends X P c1 (snd (add_column X t (fst kv) ty c1))" .
        with e1 have e2: "sends X P c (snd (add_column X t (fst kv) ty c1))"
          by (rule sends_trans)
        obtain r2 c2 where a: "add_column X t (fst kv) ty c1 = (r2, c2)" by fastforce
        with e2 have e2': "sends X P c c2" by simp
        show ?thesis
        proof (cases r2)
          case (Inl e)
          with c Inr False ty a e2' show ?thesis by simp
        next
          case u: (Inr u)
          with c Inr False ty a
          have "snd (insert_columns X t (kv # rest) c) = snd (insert_columns X t rest c2)"
            by simp
          with sends_trans [OF e2' rest [of c2]] show ?thesis by simp
        qed
      qed
    qed
  qed
qed

lemma sends_insert_row:
  assumes "P (Exec (SelectColumns (table_name t)) None)"
    and "\<And>ps. P (Exec (InsertInto (table_name t) (map fst obj)) ps)"
    and "P Commit"
  shows "sends X P c (snd (insert_row X t obj c))"
proof -
  obtain r1 c1 where c: "columns X t c = (r1, c1)" by fastforce
  with sends_columns [of P t X c, OF assms(1)] have e1: "sends X P c c1" by simp
  have e2: "sends X P c (snd (execute X (InsertInto (table_name t) (map fst obj)) ps c1))" for ps
    by (rule sends_trans [OF e1]) (rule sends_execute [of P, OF assms(2)])
  have e3: "sends X P c (snd (commit X (snd (execute X (InsertInto (table_name t) (map fst obj))
      ps c1))))" for ps
    by (rule sends_trans [OF e2]) (rule sends_commit [of P, OF assms(3)])
  show ?thesis
  proof (cases r1)
    case (Inl e)
    with c e1 show ?thesis by (simp add: insert_row_def)
  next
    case (Inr cs)
    show ?thesis
    proof (cases "insert_params cs obj")
      case (Inl e)
      with c Inr e1 show ?thesis by (simp add: insert_row_def)
    next
      case ps: (Inr ps)
      obtain r3 c3 where x: "execute X (InsertInto (table_name t) (map fst obj)) (Some ps) c1 =
          (r3, c3)"
        by fastforce
      with e2 [of "Some ps"] e3 [of "Some ps"]
      have "sends X P c c3" and "sends X P c (snd (commit X c3))" by simp_all
      with c Inr ps x show ?thesis
        by (cases r3) (simp_all add: insert_row_def)
    qed
  qed
qed

lemma snd_insert:
  "snd (insert X t obj c) =
     (case insert_columns X t obj c of
        (Inl e, c1) \<Rightarrow> c1
      | (Inr u, c1) \<Rightarrow> snd (insert_row X t obj c1))"
  by (simp add: insert_def split: prod.splits sum.splits)

lemma sends_insert:
  assumes "P (Exec (SelectColumns (table_name t)) None)"
    and "\<And>k ty. k \<in> fst ` set obj \<Longrightarrow> ty \<in> snd ` set type_mapping \<Longrightarrow>
           P (Exec (AlterAddColumn (table_name t) k ty) None)"
    and "\<And>ps. P (Exec (InsertInto (table_name t) (map fst obj)) ps)"
    and "P Commit"
  shows "sends X P c (snd (insert X t obj c))"
proof -
  obtain r1 c1 where l: "insert_columns X t obj c = (r1, c1)" by fastforce
  with sends_insert_columns [of P t obj X c, OF assms(1,2)] have e1: "sends X P c c1"
    by simp
  from sends_trans [OF e1 sends_insert_row [of P t obj X c1, OF assms(1,3,4)]]
  have "sends X P c (snd (insert_row X t obj c1))" .
  with l e1 show ?thesis
    by (cases r1) (simp_all add: snd_insert)
qed

lemma sends_query:
  assumes "\<And>fs. all_fields args = Some fs \<Longrightarrow>
             P (Exec (query_stmt t fs) (Some (fmt_values fs)))"
    and "\<And>s. args = [AStr s] \<Longrightarrow> P (Exec (SelectFrom (table_name t) (WhereRaw s)) None)"
  shows "sends X P c (snd (query X t args c))"
proof (cases "all_fields args")
  case (Some fs)
  obtain r1 c1 where x: "execute X (query_stmt t fs) (Some (fmt_values fs)) c = (r1, c1)"
    by fastforce
  with sends_execute [of P "query_stmt t fs" "Some (fmt_values fs)" X c, OF assms(1) [OF Some]]
  have "sends X P c c1" by simp
  with Some x show ?thesis
    by (cases r1) (simp_all add: query_def)
next
  case None
  show ?thesis
  proof (cases "\<exists>s. args = [AStr s]")
    case True
    then obtain s where s: "args = [AStr s]" by blast
    obtain r1 c1 where x: "execute X (SelectFrom (table_name t) (WhereRaw s)) None c = (r1, c1)"
      by fastforce
    with sends_execute [of P "SelectFrom (table_name t) (WhereRaw s)" None X c, OF assms(2) [OF s]]
    have "sends X P c c1" by simp
    with s x show ?thesis
      by (cases r1) (simp_all add: query_def)
  next
    case False
    with None have "snd (query X t args c) = c"
      by (auto simp: query_def split: list.splits arg.splits)
    then show ?thesis by (simp add: sends_refl)
  qed
qed

lemma sends_truncate:
  assumes "P (Exec (TruncateTable (table_name t)) None)" and "P Commit"
  shows "sends X P c (snd (truncate X t c))"
proof -
  obtain r1 c1 where x: "execute X (TruncateTable (table_name t)) None c = (r1, c1)"
    by fastforce
  with sends_execute [of P "TruncateTable (table_name t)" None X c, OF assms(1)]
  have e1: "sends X P c c1" by simp
  from sends_trans [OF e1 sends_commit [of P X c1, OF assms(2)]] have "sends X P c (snd (commit X c1))" .
  with x e1 show ?thesis
    by (cases r1) (simp_all add: truncate_def)
qed

lemma insert_columns_append:
  "insert_columns X t (xs @ ys) c =
     (case insert_columns X t xs c of
        (Inl e, c1) \<Rightarrow> (Inl e, c1)
      | (Inr u, c1) \<Rightarrow> insert_columns X t ys c1)"
  by (induction xs arbitrary: c) (simp_all split: prod.splits sum.splits)

subsection \<open>Columns in the engine of the examples\<close>

lemma engine_exec_col_type:
  assumes "engine_exec e st ps = Inr (res, e')" and "col_type e n k = Some ty"
  shows "col_type e' n k = Some ty"
proof (cases st)
  case (CreateTable m)
  with assms show ?thesis
    by (auto simp: col_type_def update_conv' split: option.splits if_splits)
next
  case (AlterAddColumn m c dty)
  with assms show ?thesis
    by (auto simp: col_type_def update_conv' split: option.splits if_splits)
next
  case (InsertInto m ks)
  with assms show ?thesis
    by (auto simp: col_type_def update_conv' engine_insert_def bind_err_def
        split: option.splits if_splits sum.splits)
next
  case (TruncateTable m)
  with assms show ?thesis
    by (auto simp: col_type_def update_conv' split: option.splits if_splits)
next
  case (SelectFrom m w)
  with assms show ?thesis
    by (auto simp: bind_err_def split: sum.splits)
qed (use assms in auto)

lemma engine_step_col_type:
  "col_type e n k = Some ty \<Longrightarrow> col_type (snd (engine_step e ev)) n k = Some ty"
proof (cases ev)
  case (Exec st ps)
  assume c: "col_type e n k = Some ty"
  show ?thesis
  proof (cases "engine_exec e st ps")
    case (Inl err)
    with Exec c show ?thesis by simp
  next
    case (Inr p)
    obtain res e' where "p = (res, e')" by (cases p)
    with Inr Exec engine_exec_col_type [of e st ps res e' n k ty] c show ?thesis by simp
  qed
next
  case Commit
  assume "col_type e n k = Some ty"
  with Commit show ?thesis by simp
qed

lemma strict_engine_col_type:
  "safe_event n ev \<Longrightarrow> col_type e m k = Some ty \<Longrightarrow>
   col_type (snd (strict_engine n e ev)) m k = Some ty"
  by (simp add: strict_engine_def engine_step_col_type)

section \<open>Properties\<close>

text \<open>
  C10. When \<open>query\<close> is called with arguments that are neither all filter expressions
  nor exactly one string, nothing is executed on the connection (it is returned as it
  was, its trace included), whatever the engine, and the call fails at
  \<^verbatim>\<open>fetchall\<close> with "no results to fetch" instead of returning rows.
\<close>

theorem query_other_arguments:
  assumes "\<exists>a\<in>set args. \<forall>f. a \<noteq> AField f"
    and "\<forall>s. args \<noteq> [AStr s]"
  shows "query X t args c = (Inl NoResultsToFetch, c)"
proof -
  from assms(1) have n: "all_fields args = None"
    by (simp add: all_fields_None_iff)
  show ?thesis
  proof (cases args)
    case Nil
    with assms(1) show ?thesis by simp
  next
    case (Cons a as)
    with assms(2) n show ?thesis
      by (cases a; cases as) (simp_all add: query_def)
  qed
qed

theorem query_other_arguments_witness:
  "query engine_step example_table [AStr ''integer = 3'', AStr ''string = 1''] example_connection
   = (Inl NoResultsToFetch, example_connection)"
  by (rule query_other_arguments) simp_all




text \<open>
  C2 fails on the code: the module never imports \<open>json\<close>, so the expression
  \<^verbatim>\<open>json.dumps(v)\<close> raises \<open>NameError\<close> as soon as a key's column is of type json. The
  column has been added by then; the INSERT is not executed and no row is written.
\<close>

theorem insert_list_name_error:
  "fst (insert engine_step example_table [(''list'', PList [PStr ''one'', PStr ''two''])]
          example_connection) =
     Inl NameError \<and>
   stored_rows (db (snd (insert engine_step example_table
                           [(''list'', PList [PStr ''one'', PStr ''two''])]
                           example_connection))) ''test'' =
     [[(''integer'', SInt 3), (''string'', SText [])]] \<and>
   trace (snd (insert engine_step example_table [(''list'', PList [PStr ''one'', PStr ''two''])]
                 example_connection)) =
     [Exec (SelectColumns ''test'') None, Exec (AlterAddColumn ''test'' ''list'' ''json'') None,
      Exec (SelectColumns ''test'') None]"
  by (simp add: insert_def insert_row_def columns_eq add_column_def execute_engine_step example_table_def
      example_connection_def getitem_def type_mapping_def data_types_def dict_of_def
      insert_params_def insert_value_def bind_err_def json_dumps_def module_globals_def
      stored_rows_def Let_def)

text \<open>
  C9. The parameter map holds one value for each field name; the value under the name of
  an expression that no later expression repeats is that expression's operand. \<open>query\<close>
  passes this map to \<open>execute\<close> with the statement, and its result is the engine's answer
  to that request. So the operand of an earlier expression on the same field has no
  influence at all on what \<open>query\<close> sends and returns, whatever the engine: a conjunction
  of two comparisons on one field compares with the last operand twice.
\<close>

theorem repeated_field_last_operand:
  "distinct (map fst (fmt_values fs)) \<and>
   ((\<forall>h\<in>set post. fname h \<noteq> fname f) \<longrightarrow>
      map_of (fmt_values (pre @ f # post)) (fname f) = Some (Plain (fvalue f))) \<and>
   trace (snd (query X t (map AField fs) c)) =
     trace c @ [Exec (query_stmt t fs) (Some (fmt_values fs))] \<and>
   fst (query X t (map AField fs) c) =
     (case fst (X (db c) (Exec (query_stmt t fs) (Some (fmt_values fs)))) of
        Inl e \<Rightarrow> Inl e
      | Inr r \<Rightarrow> fetchall (Some r)) \<and>
   (fname g = fname f \<longrightarrow>
      query X t (map AField (init @ g\<lparr>fvalue := v\<rparr> # mid @ f # rest)) c =
      query X t (map AField (init @ g # mid @ f # rest)) c)"
proof (intro conjI impI)
  show "distinct (map fst (fmt_values fs))"
    by (simp add: fmt_values_def distinct_dict_of)
next
  assume "\<forall>h\<in>set post. fname h \<noteq> fname f"
  then have "\<forall>x\<in>set (map (\<lambda>f. (fname f, Plain (fvalue f))) post). fst x \<noteq> fname f"
    by simp
  from map_of_dict_of_last [OF this]
  show "map_of (fmt_values (pre @ f # post)) (fname f) = Some (Plain (fvalue f))"
    by (simp add: fmt_values_def)
next
  show "trace (snd (query X t (map AField fs) c)) =
     trace c @ [Exec (query_stmt t fs) (Some (fmt_values fs))]"
    by (rule query_trace)
next
  show "fst (query X t (map AField fs) c) =
     (case fst (X (db c) (Exec (query_stmt t fs) (Some (fmt_values fs)))) of
        Inl e \<Rightarrow> Inl e
      | Inr r \<Rightarrow> fetchall (Some r))"
    by (rule query_result)
next
  assume n: "fname g = fname f"
  let ?kv = "\<lambda>f. (fname f, Plain (fvalue f))"
  have "fmt_values (init @ g\<lparr>fvalue := v\<rparr> # mid @ f # rest) =
        dict_of (map ?kv init @ (fname f, Plain v) # map ?kv mid @ (fname f, Plain (fvalue f)) #
                 map ?kv rest)"
    using n by (simp add: fmt_values_def)
  also have "\<dots> =
        dict_of (map ?kv init @ (fname f, Plain (fvalue g)) # map ?kv mid @
                 (fname f, Plain (fvalue f)) # map ?kv rest)"
    by (rule dict_of_earlier_value)
  also have "\<dots> = fmt_values (init @ g # mid @ f # rest)"
    using n by (simp add: fmt_values_def)
  finally have m: "fmt_values (init @ g\<lparr>fvalue := v\<rparr> # mid @ f # rest) =
        fmt_values (init @ g # mid @ f # rest)" .
  have s: "query_stmt t (init @ g\<lparr>fvalue := v\<rparr> # mid @ f # rest) =
        query_stmt t (init @ g # mid @ f # rest)"
    by (simp add: query_stmt_def)
  have q: "query X t (map AField fs') c =
        (case execute X (query_stmt t fs') (Some (fmt_values fs')) c of
           (Inl e, c') \<Rightarrow> (Inl e, c')
         | (Inr r, c') \<Rightarrow> (fetchall (Some r), c'))" for fs'
    by (simp add: query_def all_fields_map)
  show "query X t (map AField (init @ g\<lparr>fvalue := v\<rparr> # mid @ f # rest)) c =
      query X t (map AField (init @ g # mid @ f # rest)) c"
    by (simp only: q m s)
qed

text \<open>
  On the collection \<open>test\<close>, whose only row has \<open>integer = 3\<close>, the conjunction of
  \<open>integer >= 10\<close> and \<open>integer <= 3\<close>: both placeholders are bound to 3, and the row is
  returned although it is not above 10.
\<close>

theorem repeated_field_last_operand_witness:
  "distinct (map fst (fmt_values [greater_or_equal (Field_init ''integer'') (PInt 10),
                                  less_or_equal (Field_init ''integer'') (PInt 3)])) \<and>
   map_of (fmt_values [greater_or_equal (Field_init ''integer'') (PInt 10),
                       less_or_equal (Field_init ''integer'') (PInt 3)]) ''integer'' =
     Some (Plain (PInt 3)) \<and>
   trace (snd (query engine_step example_table
          [AField (greater_or_equal (Field_init ''integer'') (PInt 10)),
           AField (less_or_equal (Field_init ''integer'') (PInt 3))] example_connection)) =
     [Exec (SelectFrom ''test'' (WhereFields [(''integer'', ''>=''), (''integer'', ''<='')]))
        (Some [(''integer'', Plain (PInt 3))])] \<and>
   fst (query engine_step example_table
          [AField (greater_or_equal (Field_init ''integer'') (PInt 10)),
           AField (less_or_equal (Field_init ''integer'') (PInt 3))] example_connection) =
     Inr [[(''integer'', SInt 3), (''string'', SText [])]] \<and>
   query engine_step example_table
          [AField (greater_or_equal (Field_init ''integer'') (PInt 3)),
           AField (less_or_equal (Field_init ''integer'') (PInt 3))] example_connection =
   query engine_step example_table
          [AField (greater_or_equal (Field_init ''integer'') (PInt 10)),
           AField (less_or_equal (Field_init ''integer'') (PInt 3))] example_connection"
  using repeated_field_last_operand [of
      "[greater_or_equal (Field_init ''integer'') (PInt 10),
        less_or_equal (Field_init ''integer'') (PInt 3)]"
      "[]" "less_or_equal (Field_init ''integer'') (PInt 3)"
      "[greater_or_equal (Field_init ''integer'') (PInt 10)]"
      engine_step example_table example_connection
      "greater_or_equal (Field_init ''integer'') (PInt 10)" "[]" "PInt 3" "[]" "[]"]
  by (simp add: example_defs greater_or_equal_def less_or_equal_def query_def
      execute_engine_step engine_select_def bind_err_def bind_placeholder_def getitem_def
      parse_ops_def parse_op_def exists_op_def conjunct_pred_def compare_col_def present_def
      cell_def)




text \<open>
  C3, as the code has it. \<open>query\<close> never consults the column set: for every collection and
  every field \<open>f\<close>, \<open>query (Field f).exists()\<close> sends the one statement
  \<^verbatim>\<open>SELECT * FROM t WHERE f is not null and '' = %(f)s\<close> with \<open>f\<close> bound to the empty string,
  and an error with which the engine answers it, for instance the undefined-column
  error, is raised to the caller: no empty result is returned in its place.
\<close>

theorem exists_missing_column:
  "trace (snd (query X t [AField (exists (Field_init f))] c)) =
     trace c @ [Exec (SelectFrom (table_name t) (WhereFields [(f, exists_op)]))
                  (Some [(f, Plain (PStr []))])] \<and>
   stmt_text (SelectFrom (table_name t) (WhereFields [(f, exists_op)])) =
     ''SELECT * FROM '' @ table_name t @ '' WHERE '' @ f @ '' '' @ exists_op @
     '' %('' @ f @ '')s'' \<and>
   (fst (X (db c) (Exec (SelectFrom (table_name t) (WhereFields [(f, exists_op)]))
                    (Some [(f, Plain (PStr []))]))) = Inl e \<longrightarrow>
      fst (query X t [AField (exists (Field_init f))] c) = Inl e)"
proof -
  have st: "query_stmt t [exists (Field_init f)] =
      SelectFrom (table_name t) (WhereFields [(f, exists_op)])"
    by (simp add: query_stmt_def exists_def Field_init_def format_op_def)
  have ps: "fmt_values [exists (Field_init f)] = [(f, Plain (PStr []))]"
    by (simp add: fmt_values_def dict_of_def exists_def Field_init_def)
  from query_trace [of X t "[exists (Field_init f)]" c]
    query_result [of X t "[exists (Field_init f)]" c]
  show ?thesis
    by (simp add: st ps conjunct_text_def)
qed

theorem exists_missing_column_witness:
  "trace (snd (query engine_step example_table [AField (exists (Field_init ''floating_point''))]
                 example_connection)) =
     [Exec (SelectFrom ''test'' (WhereFields [(''floating_point'', exists_op)]))
        (Some [(''floating_point'', Plain (PStr []))])] \<and>
   fst (query engine_step example_table [AField (exists (Field_init ''floating_point''))]
          example_connection) =
     Inl UndefinedColumn"
  using exists_missing_column [of engine_step example_table "''floating_point''"
      example_connection UndefinedColumn]
  by (simp add: example_table_def example_connection_def exists_select bind_err_def)

text \<open>
  C3 as stated fails: the collection \<open>test\<close> has no column \<open>list\<close>, and the query raises.
\<close>

theorem exists_missing_column_counterexample:
  "map_of (relations (db example_connection)) ''test'' \<noteq> None \<and>
   col_type (db example_connection) ''test'' ''list'' = None \<and>
   fst (query engine_step example_table [AField (exists (Field_init ''list''))]
          example_connection) =
     Inl UndefinedColumn"
  by (simp add: query_exists exists_select example_table_def example_connection_def col_type_def)

text \<open>
  C6, as the code has it. The storage type is looked up only for a field that the column
  map does not report when the loop of \<open>insert\<close> reaches it. For a record with such a field
  whose value kind is not in the fixed mapping, \<open>insert\<close> raises before the INSERT
  statement is sent, whatever the engine: it raises \<open>KeyError\<close> at that field, unless a
  request for an earlier field has raised already, and has sent nothing but catalog reads
  of the columns and ADD COLUMN, so no row is written.
\<close>

theorem insert_unmapped_new_field:
  assumes "map_of type_mapping (type_of v) = None"
  shows "(insert_columns X t pre c = (Inr (), c1) \<and> columns X t c1 = (Inr cs, c2) \<and>
          map_of cs k = None \<longrightarrow>
            insert X t (pre @ (k, v) # post) c = (Inl KeyError, c2)) \<and>
         ((\<forall>a ds b. insert_columns X t pre c = (Inr (), a) \<longrightarrow> columns X t a = (Inr ds, b) \<longrightarrow>
                    map_of ds k = None) \<longrightarrow>
            (\<exists>e. fst (insert X t (pre @ (k, v) # post) c) = Inl e) \<and>
            (\<exists>evs. trace (snd (insert X t (pre @ (k, v) # post) c)) = trace c @ evs \<and>
                   list_all loop_event evs))"
proof (intro conjI impI)
  assume "insert_columns X t pre c = (Inr (), c1) \<and> columns X t c1 = (Inr cs, c2) \<and>
          map_of cs k = None"
  with assms show "insert X t (pre @ (k, v) # post) c = (Inl KeyError, c2)"
    by (simp add: insert_def insert_columns_append getitem_def)
next
  assume h: "\<forall>a ds b. insert_columns X t pre c = (Inr (), a) \<longrightarrow> columns X t a = (Inr ds, b) \<longrightarrow>
                    map_of ds k = None"
  let ?obj = "pre @ (k, v) # post"
  have fails: "\<exists>e. fst (insert_columns X t ?obj c) = Inl e"
  proof -
    obtain r0 a where l: "insert_columns X t pre c = (r0, a)" by fastforce
    show ?thesis
    proof (cases r0)
      case (Inl e)
      with l show ?thesis by (simp add: insert_columns_append)
    next
      case (Inr u)
      obtain r1 b where cl: "columns X t a = (r1, b)" by fastforce
      show ?thesis
      proof (cases r1)
        case (Inl e)
        with l Inr cl show ?thesis by (simp add: insert_columns_append)
      next
        case ds: (Inr ds)
        with h l Inr cl have "map_of ds k = None" by simp
        with assms l Inr cl ds show ?thesis
          by (simp add: insert_columns_append getitem_def)
      qed
    qed
  qed
  then obtain e where e: "fst (insert_columns X t ?obj c) = Inl e" by blast
  then have i: "insert X t ?obj c = (Inl e, snd (insert_columns X t ?obj c))"
    by (cases "insert_columns X t ?obj c") (simp add: insert_def)
  then show "\<exists>e. fst (insert X t ?obj c) = Inl e" by simp
  have "sends X loop_event c (snd (insert_columns X t ?obj c))"
    by (rule sends_insert_columns) simp_all
  from sends_trace [OF this] i
  show "\<exists>evs. trace (snd (insert X t ?obj c)) = trace c @ evs \<and> list_all loop_event evs"
    by simp
qed

theorem insert_unmapped_new_field_witness:
  "insert engine_step example_table [(''a'', PInt 1), (''b'', PNone)] example_connection =
     (Inl KeyError,
      snd (columns engine_step example_table
             (snd (insert_columns engine_step example_table [(''a'', PInt 1)]
                     example_connection)))) \<and>
   trace (snd (insert engine_step example_table [(''a'', PInt 1), (''b'', PNone)]
                 example_connection)) =
     [Exec (SelectColumns ''test'') None, Exec (AlterAddColumn ''test'' ''a'' ''bigint'') None,
      Exec (SelectColumns ''test'') None] \<and>
   stored_rows (db (snd (insert engine_step example_table [(''a'', PInt 1), (''b'', PNone)]
                      example_connection))) ''test'' =
     [[(''integer'', SInt 3), (''string'', SText [])]]"
  using insert_unmapped_new_field [of PNone engine_step example_table "[(''a'', PInt 1)]"
      example_connection
      "snd (insert_columns engine_step example_table [(''a'', PInt 1)] example_connection)"
      "[(''integer'', ''bigint''), (''string'', ''character varying''), (''a'', ''bigint'')]"
      "snd (columns engine_step example_table
             (snd (insert_columns engine_step example_table [(''a'', PInt 1)]
                     example_connection)))"
      "''b''" "[]"]
  by (simp add: example_table_def example_connection_def type_mapping_def columns_eq
      add_column_def execute_engine_step getitem_def data_types_def dict_of_def
      stored_rows_def insert_def)

text \<open>
  C6 as stated fails: the storage type is only looked up for a field that is not yet a
  column. \<open>None\<close> has no storage type, \<open>integer\<close> is a column of \<open>test\<close>, and the insert
  succeeds and writes a row.
\<close>

theorem insert_unmapped_existing_counterexample:
  "map_of type_mapping (type_of PNone) = None \<and>
   fst (insert engine_step example_table [(''integer'', PNone)] example_connection) = Inr () \<and>
   stored_rows (db (snd (insert engine_step example_table [(''integer'', PNone)]
                           example_connection))) ''test'' =
     [[(''integer'', SInt 3), (''string'', SText [])], [(''integer'', SNull)]]"
  by (simp add: insert_def insert_row_def columns_eq execute_engine_step commit_engine_step
      example_table_def example_connection_def type_mapping_def dict_of_def
      insert_params_def insert_value_def bind_err_def getitem_def engine_insert_def
      bind_placeholder_def store_value_def stored_rows_def Let_def)

text \<open>
  C1, as the code has it. Field names are embedded into the generated statements exactly
  as given, with no validation, whatever the engine. \<open>query\<close> sends its statement, which
  carries every field name of the filter list. \<open>insert\<close>, for a key that the column map
  does not report when its loop reaches it, sends ADD COLUMN IF NOT EXISTS with the key
  in its text; and once the loop and the parameter map are through, it sends the INSERT
  with every key of the record in its text.
\<close>

theorem field_names_verbatim:
  "trace (snd (query X t (map AField fs) c)) =
     trace c @ [Exec (query_stmt t fs) (Some (fmt_values fs))] \<and>
   (\<forall>f\<in>set fs. sublist (fname f) (stmt_text (query_stmt t fs))) \<and>
   (insert_columns X t pre a = (Inr (), a0) \<and> columns X t a0 = (Inr cs, a1) \<and>
    map_of cs k = None \<and> getitem type_mapping (type_of v) = Inr ty \<longrightarrow>
      (\<exists>evs. trace (snd (insert X t (pre @ (k, v) # post) a)) =
               trace a0 @ Exec (SelectColumns (table_name t)) None #
                 Exec (AlterAddColumn (table_name t) k ty) None # evs) \<and>
      sublist k (stmt_text (AlterAddColumn (table_name t) k ty))) \<and>
   (insert_columns X t obj b = (Inr (), b0) \<and> columns X t b0 = (Inr ds, b1) \<and>
    insert_params ds obj = Inr ps \<longrightarrow>
      (\<exists>evs. trace (snd (insert X t obj b)) =
               trace b1 @ Exec (InsertInto (table_name t) (map fst obj)) (Some ps) # evs) \<and>
      (\<forall>j\<in>set (map fst obj). sublist j (stmt_text (InsertInto (table_name t) (map fst obj)))))"
proof (intro conjI impI ballI)
  show "trace (snd (query X t (map AField fs) c)) =
     trace c @ [Exec (query_stmt t fs) (Some (fmt_values fs))]"
    by (rule query_trace)
next
  fix f assume f: "f \<in> set fs"
  let ?cs = "map (\<lambda>f. (fname f, format_op (fop f))) fs"
  from f have "conjunct_text (fname f, format_op (fop f)) \<in> set (map conjunct_text ?cs)"
    by force
  then have "sublist (conjunct_text (fname f, format_op (fop f)))
               (join '' AND '' (map conjunct_text ?cs))"
    by (rule sublist_join)
  moreover have "sublist (fname f) (conjunct_text (fname f, format_op (fop f)))"
    by (simp add: conjunct_text_def)
  ultimately have "sublist (fname f) (join '' AND '' (map conjunct_text ?cs))"
    by (rule sublist_order.order.trans [rotated])
  then obtain ps ss where "join '' AND '' (map conjunct_text ?cs) = ps @ fname f @ ss"
    by (auto simp: sublist_def)
  then have "stmt_text (query_stmt t fs) =
      (''SELECT * FROM '' @ table_name t @ '' WHERE '' @ ps) @ fname f @ ss"
    using f by (auto simp: query_stmt_def)
  then show "sublist (fname f) (stmt_text (query_stmt t fs))"
    unfolding sublist_def by blast
next
  assume h: "insert_columns X t pre a = (Inr (), a0) \<and> columns X t a0 = (Inr cs, a1) \<and>
    map_of cs k = None \<and> getitem type_mapping (type_of v) = Inr ty"
  let ?obj = "pre @ (k, v) # post"
  let ?T = "\<lambda>ev :: event. True"
  from h snd_columns [of X t a0] execute_trace [of X "SelectColumns (table_name t)" None a0]
  have t1: "trace a1 = trace a0 @ [Exec (SelectColumns (table_name t)) None]" by simp
  obtain r2 a2 where ac: "add_column X t k ty a1 = (r2, a2)" by fastforce
  with snd_add_column [of X t k ty a1]
    execute_trace [of X "AlterAddColumn (table_name t) k ty" None a1] t1
  have t2: "trace a2 = trace a0 @ [Exec (SelectColumns (table_name t)) None,
      Exec (AlterAddColumn (table_name t) k ty) None]"
    by simp
  have "sends X ?T a2 (snd (insert X t ?obj a))"
  proof (cases r2)
    case (Inl e)
    with h ac have "snd (insert X t ?obj a) = a2"
      by (simp add: insert_def insert_columns_append)
    then show ?thesis by (simp add: sends_refl)
  next
    case (Inr u)
    obtain r3 a3 where l: "insert_columns X t post a2 = (r3, a3)" by fastforce
    have "sends X ?T a2 (snd (insert_columns X t post a2))"
      by (rule sends_insert_columns) simp_all
    with l have s3: "sends X ?T a2 a3" by simp
    have "sends X ?T a3 (snd (insert_row X t ?obj a3))"
      by (rule sends_insert_row) simp_all
    with s3 have s4: "sends X ?T a2 (snd (insert_row X t ?obj a3))" by (rule sends_trans)
    from h ac Inr l have "snd (insert X t ?obj a) =
        (case r3 of Inl e \<Rightarrow> a3 | Inr w \<Rightarrow> snd (insert_row X t ?obj a3))"
      by (simp add: insert_def insert_columns_append split: sum.splits)
    with s3 s4 show ?thesis by (cases r3) simp_all
  qed
  from sends_trace [OF this] t2
  show "\<exists>evs. trace (snd (insert X t ?obj a)) =
               trace a0 @ Exec (SelectColumns (table_name t)) None #
                 Exec (AlterAddColumn (table_name t) k ty) None # evs"
    by auto
  show "sublist k (stmt_text (AlterAddColumn (table_name t) k ty))"
  proof -
    have "stmt_text (AlterAddColumn (table_name t) k ty) =
        (nl @ indent 12 @ ''ALTER TABLE '' @ table_name t @ nl @ indent 12 @
         ''ADD COLUMN IF NOT EXISTS '') @ k @ ('' '' @ ty @ nl @ indent 8)"
      by simp
    then show ?thesis unfolding sublist_def by blast
  qed
next
  assume h: "insert_columns X t obj b = (Inr (), b0) \<and> columns X t b0 = (Inr ds, b1) \<and>
    insert_params ds obj = Inr ps"
  let ?st = "InsertInto (table_name t) (map fst obj)"
  obtain r2 b2 where x: "execute X ?st (Some ps) b1 = (r2, b2)" by fastforce
  with execute_trace [of X ?st "Some ps" b1]
  have t2: "trace b2 = trace b1 @ [Exec ?st (Some ps)]" by simp
  from h x have "snd (insert X t obj b) = (case r2 of Inl e \<Rightarrow> b2 | Inr w \<Rightarrow> snd (commit X b2))"
    by (simp add: insert_def insert_row_def split: sum.splits)
  moreover have "trace (snd (commit X b2)) = trace b2 @ [Commit]"
    by (simp add: snd_commit trace_step)
  ultimately show "\<exists>evs. trace (snd (insert X t obj b)) = trace b1 @ Exec ?st (Some ps) # evs"
    using t2 by (cases r2) simp_all
next
  fix j assume "j \<in> set (map fst obj)"
  then have "sublist j (join '','' (map fst obj))" by (rule sublist_join)
  then obtain ps ss where "join '','' (map fst obj) = ps @ j @ ss"
    by (auto simp: sublist_def)
  then have "stmt_text (InsertInto (table_name t) (map fst obj)) =
      (''INSERT INTO '' @ table_name t @ '' ('' @ ps) @ j @
      (ss @ '')'' @ '' VALUES '' @ ''('' @ join '','' (map placeholder (map fst obj)) @ '')'')"
    by simp
  then show "sublist j (stmt_text (InsertInto (table_name t) (map fst obj)))"
    unfolding sublist_def by blast
qed

text \<open>
  Three names outside the safe charset: a field \<open>a b\<close> in a query, a new key \<open>c d\<close> in a
  record, and the key \<open>first name\<close> of a column that exists under that name.
\<close>

theorem field_names_verbatim_witness:
  "trace (snd (query engine_step example_table [AField (equals (Field_init ''a b'') (PInt 1))]
                 example_connection)) =
     [Exec (SelectFrom ''test'' (WhereFields [(''a b'', ''='')])) (Some [(''a b'', Plain (PInt 1))])] \<and>
   sublist ''a b'' (stmt_text (query_stmt example_table [equals (Field_init ''a b'') (PInt 1)])) \<and>
   take 2 (trace (snd (insert engine_step example_table [(''c d'', PInt 2)] example_connection))) =
     [Exec (SelectColumns ''test'') None, Exec (AlterAddColumn ''test'' ''c d'' ''bigint'') None] \<and>
   sublist ''c d'' (stmt_text (AlterAddColumn ''test'' ''c d'' ''bigint'')) \<and>
   take 3 (trace (snd (insert engine_step example_table [(''first name'', PStr ''Ada'')]
                         example_quoted_connection))) =
     [Exec (SelectColumns ''test'') None, Exec (SelectColumns ''test'') None,
      Exec (InsertInto ''test'' [''first name'']) (Some [(''first name'', Plain (PStr ''Ada''))])] \<and>
   stmt_text (InsertInto ''test'' [''first name'']) =
     ''INSERT INTO test (first name) VALUES (%(first name)s)''"
  using field_names_verbatim [of engine_step example_table
      "[equals (Field_init ''a b'') (PInt 1)]" example_connection
      "[]" example_connection example_connection
      "[(''integer'', ''bigint''), (''string'', ''character varying'')]"
      "snd (columns engine_step example_table example_connection)"
      "''c d''" "PInt 2" "''bigint''" "[]"
      "[(''first name'', PStr ''Ada'')]" example_quoted_connection
      "snd (columns engine_step example_table example_quoted_connection)"
      "[(''first name'', ''character varying'')]"
      "snd (columns engine_step example_table
              (snd (columns engine_step example_table example_quoted_connection)))"
      "[(''first name'', Plain (PStr ''Ada''))]"]
  by (simp add: example_table_def example_connection_def example_quoted_connection_def
      query_stmt_def fmt_values_def dict_of_def equals_def Field_init_def format_op_def
      conjunct_text_def placeholder_def
      insert_def insert_row_def columns_eq add_column_def execute_engine_step commit_engine_step
      getitem_def type_mapping_def data_types_def insert_params_def insert_value_def
      bind_err_def engine_insert_def bind_placeholder_def store_value_def Let_def)

text \<open>
  C1 as stated fails: a field name outside the safe charset is not rejected; the
  statement carrying it is executed.
\<close>

theorem unvalidated_field_name_counterexample:
  "\<not> safe_identifier ''x; DROP TABLE test'' \<and>
   trace (snd (query engine_step example_table
                 [AField (equals (Field_init ''x; DROP TABLE test'') (PInt 1))] example_connection)) =
     [Exec (SelectFrom ''test'' (WhereFields [(''x; DROP TABLE test'', ''='')]))
        (Some [(''x; DROP TABLE test'', Plain (PInt 1))])] \<and>
   stmt_text (SelectFrom ''test'' (WhereFields [(''x; DROP TABLE test'', ''='')])) =
     ''SELECT * FROM test WHERE x; DROP TABLE test = %(x; DROP TABLE test)s''"
  using query_trace [of engine_step example_table
      "[equals (Field_init ''x; DROP TABLE test'') (PInt 1)]" example_connection]
  by (simp add: safe_identifier_def safe_char_def example_table_def example_connection_def
      query_stmt_def fmt_values_def dict_of_def equals_def Field_init_def format_op_def
      conjunct_text_def)

text \<open>
  C7 fails on the code. Every call of \<open>table\<close> constructs a \<open>Table\<close>, whose constructor asks
  the catalog for the name as it is written, while CREATE TABLE creates the relation
  under the folded name. For the name \<open>Test\<close> the first call creates \<open>test\<close> and returns a
  handle; the second call finds no \<open>Test\<close> in the catalog, sends CREATE TABLE a second
  time and raises the engine's duplicate-table error instead of returning the handle.
\<close>

theorem table_twice_folded_name:
  "fst (table postgres example_helenus ''Test'') = Inr \<lparr>table_id = 0, table_name = ''Test''\<rparr> \<and>
   fst (table postgres (snd (table postgres example_helenus ''Test'')) ''Test'') =
     Inl DuplicateTable \<and>
   trace (connection (snd (table postgres (snd (table postgres example_helenus ''Test''))
                             ''Test''))) =
     [Exec (SelectExists ''Test'') None, Exec (CreateTable ''Test'') None, Commit,
      Exec (SelectColumns ''Test'') None,
      Exec (SelectExists ''Test'') None, Exec (CreateTable ''Test'') None]"
  by (simp add: table_def Table_init_def Table_exists_def columns_def execute_def commit_def
      send_def postgres_def fold_identifier_def lower_char_def example_helenus_def Let_def)

text \<open>
  C8, as the code has it. Take any sequence of \<open>insert\<close>, \<open>query\<close> and \<open>truncate\<close> on a handle
  in which the table name, the record keys and the field names are safe identifiers, the
  operators are those the methods of \<open>Field\<close> set, and no raw predicate string is passed.
  Whether the operations return or raise, every request sent is a catalog read of the
  columns, ADD COLUMN IF NOT EXISTS with a storage type of the mapping, INSERT, SELECT
  with field comparisons, TRUNCATE or a commit, on those identifiers, and the connection
  is what these requests make of it. So on every engine that keeps a column and its type
  when it answers such a request, a column stays a column with its type. (A raw predicate
  string or another name is sent as given.)
\<close>

theorem schema_monotonic:
  assumes "safe_identifier (table_name t)" and "list_all safe_operation ops"
    and "\<And>s ev. safe_event (table_name t) ev \<Longrightarrow> colmap s m k = Some ty \<Longrightarrow>
           colmap (snd (X s ev)) m k = Some ty"
  shows "(\<exists>evs. list_all (safe_event (table_name t)) evs \<and>
               run X t ops c = foldl (step X) c evs \<and>
               trace (run X t ops c) = trace c @ evs) \<and>
         (colmap (db c) m k = Some ty \<longrightarrow> colmap (db (run X t ops c)) m k = Some ty)"
proof -
  let ?P = "safe_event (table_name t)"
  have op: "sends X ?P a (apply_operation X t p a)" if "safe_operation p" for p a
  proof (cases p)
    case (OpInsert obj)
    with that have keys: "\<And>j. j \<in> fst ` set obj \<Longrightarrow> safe_identifier j"
      by (auto simp: list_all_iff)
    have "sends X ?P a (snd (insert X t obj a))"
    proof (rule sends_insert)
      show "?P (Exec (SelectColumns (table_name t)) None)"
        using assms(1) by simp
      show "?P (Exec (AlterAddColumn (table_name t) j ty') None)"
        if "j \<in> fst ` set obj" "ty' \<in> snd ` set type_mapping" for j ty'
        using assms(1) that keys by simp
      show "?P (Exec (InsertInto (table_name t) (map fst obj)) ps)" for ps
        using assms(1) keys by (simp add: list_all_iff)
      show "?P Commit" by simp
    qed
    with OpInsert show ?thesis by simp
  next
    case (OpQuery args)
    with that have args: "list_all safe_arg args" by simp
    have "sends X ?P a (snd (query X t args a))"
    proof (rule sends_query)
      fix fs assume "all_fields args = Some fs"
      with args have "\<forall>f\<in>set fs. safe_identifier (fname f) \<and> fop f \<in> Some ` set builder_ops"
      proof (induction args arbitrary: fs rule: all_fields.induct)
        case 1
        then show ?case by simp
      next
        case (2 f as)
        then show ?case by auto
      qed simp_all
      then have "safe_where (if length fs \<noteq> 0
          then WhereFields (map (\<lambda>f. (fname f, format_op (fop f))) fs) else NoWhere)"
        by (auto simp: list_all_iff format_op_def)
      with assms(1) show "?P (Exec (query_stmt t fs) (Some (fmt_values fs)))"
        by (simp add: query_stmt_def)
    next
      fix s assume "args = [AStr s]"
      with args show "?P (Exec (SelectFrom (table_name t) (WhereRaw s)) None)" by simp
    qed
    with OpQuery show ?thesis by simp
  next
    case OpTruncate
    have "sends X ?P a (snd (truncate X t a))"
      by (rule sends_truncate) (simp_all add: assms(1))
    with OpTruncate show ?thesis by simp
  qed
  from assms(2) have r: "sends X ?P c (run X t ops c)"
  proof (induction ops arbitrary: c)
    case Nil
    show ?case by (simp add: run_def sends_refl)
  next
    case (Cons p ops)
    from Cons.prems have "safe_operation p" and "list_all safe_operation ops" by simp_all
    from sends_trans [OF op [OF this(1)] Cons.IH [OF this(2), unfolded run_def]]
    show ?case by (simp add: run_def)
  qed
  then obtain evs where evs: "list_all ?P evs" "run X t ops c = foldl (step X) c evs"
    unfolding sends_def by blast
  then have "trace (run X t ops c) = trace c @ evs" by (simp add: trace_foldl_step)
  with evs have first: "\<exists>evs. list_all ?P evs \<and> run X t ops c = foldl (step X) c evs \<and>
      trace (run X t ops c) = trace c @ evs"
    by blast
  have "colmap (db (run X t ops c)) m k = Some ty" if "colmap (db c) m k = Some ty"
    by (rule sends_invariant [OF r, where I = "\<lambda>s. colmap s m k = Some ty"])
      (simp_all add: assms(3) that)
  with first show ?thesis by blast
qed

text \<open>
  Three safe operations on \<open>test\<close>, on an engine that loses every relation at any request
  that is not a safe one: the requests sent, and the columns afterwards.
\<close>

theorem schema_monotonic_witness:
  "trace (run (strict_engine ''test'') example_table
       [OpInsert [(''floating_point'', PFloat (13 / 10))],
        OpQuery [AField (less_than (Field_init ''floating_point'') (PInt 2))],
        OpTruncate] example_connection) =
     [Exec (SelectColumns ''test'') None,
      Exec (AlterAddColumn ''test'' ''floating_point'' ''numeric'') None,
      Exec (SelectColumns ''test'') None,
      Exec (InsertInto ''test'' [''floating_point''])
        (Some [(''floating_point'', Plain (PFloat (13 / 10)))]),
      Commit,
      Exec (SelectFrom ''test'' (WhereFields [(''floating_point'', ''<'')]))
        (Some [(''floating_point'', Plain (PInt 2))]),
      Exec (TruncateTable ''test'') None,
      Commit] \<and>
   col_type (db (run (strict_engine ''test'') example_table
       [OpInsert [(''floating_point'', PFloat (13 / 10))],
        OpQuery [AField (less_than (Field_init ''floating_point'') (PInt 2))],
        OpTruncate] example_connection)) ''test'' ''integer'' = Some ''bigint''"
proof -
  have t: "safe_identifier (table_name example_table)"
    by (simp add: example_table_def safe_identifier_def safe_char_def)
  have p: "list_all safe_operation
       [OpInsert [(''floating_point'', PFloat (13 / 10))],
        OpQuery [AField (less_than (Field_init ''floating_point'') (PInt 2))],
        OpTruncate]"
    by (simp add: safe_identifier_def safe_char_def less_than_def Field_init_def builder_ops_def)
  have e: "safe_event (table_name example_table) ev \<Longrightarrow>
        col_type s ''test'' ''integer'' = Some ''bigint'' \<Longrightarrow>
        col_type (snd (strict_engine ''test'' s ev)) ''test'' ''integer'' = Some ''bigint''"
    for s ev
    by (simp add: example_table_def strict_engine_col_type)
  have c: "col_type (db example_connection) ''test'' ''integer'' = Some ''bigint''"
    by (simp add: example_connection_def col_type_def)
  from schema_monotonic [of example_table _ col_type "''test''" "''integer''" "''bigint''"
      "strict_engine ''test''" example_connection, OF t p e] c
  obtain evs where "trace (run (strict_engine ''test'') example_table
       [OpInsert [(''floating_point'', PFloat (13 / 10))],
        OpQuery [AField (less_than (Field_init ''floating_point'') (PInt 2))],
        OpTruncate] example_connection) = trace example_connection @ evs"
    and k: "col_type (db (run (strict_engine ''test'') example_table
       [OpInsert [(''floating_point'', PFloat (13 / 10))],
        OpQuery [AField (less_than (Field_init ''floating_point'') (PInt 2))],
        OpTruncate] example_connection)) ''test'' ''integer'' = Some ''bigint''"
    by blast
  have "trace (run (strict_engine ''test'') example_table
       [OpInsert [(''floating_point'', PFloat (13 / 10))],
        OpQuery [AField (less_than (Field_init ''floating_point'') (PInt 2))],
        OpTruncate] example_connection) =
     [Exec (SelectColumns ''test'') None,
      Exec (AlterAddColumn ''test'' ''floating_point'' ''numeric'') None,
      Exec (SelectColumns ''test'') None,
      Exec (InsertInto ''test'' [''floating_point''])
        (Some [(''floating_point'', Plain (PFloat (13 / 10)))]),
      Commit,
      Exec (SelectFrom ''test'' (WhereFields [(''floating_point'', ''<'')]))
        (Some [(''floating_point'', Plain (PInt 2))]),
      Exec (TruncateTable ''test'') None,
      Commit]"
    by (simp add: run_def insert_def insert_row_def query_def truncate_def columns_def
        add_column_def execute_def commit_def send_def strict_engine_def safe_identifier_def
        safe_char_def builder_ops_def type_mapping_def getitem_def data_types_def dict_of_def
        insert_params_def insert_value_def bind_err_def engine_insert_def engine_select_def
        bind_placeholder_def store_value_def parse_ops_def parse_op_def exists_op_def
        conjunct_pred_def compare_col_def query_stmt_def fmt_values_def less_than_def
        Field_init_def format_op_def example_table_def example_connection_def Let_def)
  with k show ?thesis by simp
qed

text \<open>
  C8 as stated fails: a raw predicate string is sent as it is given. The text of the one
  request below holds a second statement, which drops a column of \<open>test\<close>.
\<close>

theorem raw_predicate_drop_column_counterexample:
  "trace (run engine_step example_table
            [OpQuery [AStr ''true; ALTER TABLE test DROP COLUMN string'']] example_connection) =
     [Exec (SelectFrom ''test'' (WhereRaw ''true; ALTER TABLE test DROP COLUMN string'')) None] \<and>
   stmt_text (SelectFrom ''test'' (WhereRaw ''true; ALTER TABLE test DROP COLUMN string'')) =
     ''SELECT * FROM test WHERE true; ALTER TABLE test DROP COLUMN string''"
  by (simp add: run_def query_def execute_engine_step engine_select_def bind_err_def
      example_table_def example_connection_def)

end
